theory Spec2Isabelle
  imports Complex_Main "HOL-Library.AList" "HOL-Library.Monad_Syntax"
begin

text \<open>
  The backend of the photography site (\<^verbatim>\<open>api/server.js\<close>): it normalizes the
  orders of the provider into shoots, keeps them in a cache that it refreshes in the
  background, and reads the log of webhook events. The functions of the server are
  embedded as functions of HOL, under their own names, and the properties of the
  specification are stated of them.
\<close>

section \<open>JavaScript values\<close>

text \<open>
  The server (\<^verbatim>\<open>api/server.js\<close>) works on values that come out of \<^verbatim>\<open>JSON.parse\<close>:
  provider orders, cached shoots, log lines. A value is modelled as the tagged union
  below. An object is the list of its own properties in the order \<^verbatim>\<open>Object.entries\<close>
  enumerates them; an array is the list of its elements. \<^verbatim>\<open>undefined\<close> is a value of
  its own since a missing property reads as \<^verbatim>\<open>undefined\<close>. Numbers inside provider
  data are integers here; strings are lists of \<^typ>\<open>char\<close>, exact for ASCII text.
\<close>

datatype jsval =
    JUndefined
  | JNull
  | JBool bool
  | JNum int
  | JStr string
  | JArr "jsval list"
  | JObj "(string \<times> jsval) list"

text \<open>Truthiness, as \<^verbatim>\<open>if (v)\<close>, \<^verbatim>\<open>!v\<close>, \<^verbatim>\<open>||\<close> and \<^verbatim>\<open>filter(Boolean)\<close> read it.\<close>

fun truthy :: "jsval \<Rightarrow> bool" where
  "truthy JUndefined = False"
| "truthy JNull = False"
| "truthy (JBool b) = b"
| "truthy (JNum n) = (n \<noteq> 0)"
| "truthy (JStr s) = (s \<noteq> [])"
| "truthy (JArr xs) = True"
| "truthy (JObj ps) = True"

text \<open>\<^verbatim>\<open>a || b\<close>\<close>

definition js_or :: "jsval \<Rightarrow> jsval \<Rightarrow> jsval" where
  "js_or a b = (if truthy a then a else b)"

text \<open>
  \<^verbatim>\<open>v?.key\<close> and \<^verbatim>\<open>v[key]\<close> for the property names the server reads (none of them is
  \<^verbatim>\<open>length\<close> or an index): only an object has such a property.
\<close>

fun js_get :: "jsval \<Rightarrow> string \<Rightarrow> jsval" where
  "js_get (JObj ps) k = (case map_of ps k of Some v \<Rightarrow> v | None \<Rightarrow> JUndefined)"
| "js_get v k = JUndefined"

section \<open>Strings\<close>

definition is_digit :: "char \<Rightarrow> bool" where
  "is_digit c = (c \<in> set ''0123456789'')"

definition is_lower_alnum :: "char \<Rightarrow> bool" where
  "is_lower_alnum c = (c \<in> set ''abcdefghijklmnopqrstuvwxyz0123456789'')"

definition is_space :: "char \<Rightarrow> bool" where
  "is_space c = (c \<in> set [CHR '' '', CHR 0x09, CHR 0x0A, CHR 0x0B, CHR 0x0C, CHR 0x0D])"

text \<open>\<^verbatim>\<open>s.trim()\<close>\<close>

definition js_trim :: "string \<Rightarrow> string" where
  "js_trim s = rev (dropWhile is_space (rev (dropWhile is_space s)))"

definition lower_char :: "char \<Rightarrow> char" where
  "lower_char c =
     (case map_of (zip ''ABCDEFGHIJKLMNOPQRSTUVWXYZ'' ''abcdefghijklmnopqrstuvwxyz'') c of
        Some d \<Rightarrow> d
      | None \<Rightarrow> c)"

text \<open>\<^verbatim>\<open>s.toLowerCase()\<close>\<close>

definition toLowerCase :: "string \<Rightarrow> string" where
  "toLowerCase s = map lower_char s"

text \<open>\<^verbatim>\<open>s.startsWith(p)\<close>, \<^verbatim>\<open>s.endsWith(p)\<close>, \<^verbatim>\<open>s.includes(p)\<close>\<close>

fun startsWith :: "string \<Rightarrow> string \<Rightarrow> bool" where
  "startsWith s [] = True"
| "startsWith [] (p # ps) = False"
| "startsWith (c # cs) (p # ps) = (c = p \<and> startsWith cs ps)"

definition endsWith :: "string \<Rightarrow> string \<Rightarrow> bool" where
  "endsWith s p = startsWith (rev s) (rev p)"

fun js_includes :: "string \<Rightarrow> string \<Rightarrow> bool" where
  "js_includes [] p = (p = [])"
| "js_includes (c # cs) p = (startsWith (c # cs) p \<or> js_includes cs p)"

text \<open>\<^verbatim>\<open>/^https?:\/\//.test(s)\<close>\<close>

definition has_http_scheme :: "string \<Rightarrow> bool" where
  "has_http_scheme s = (startsWith s ''http://'' \<or> startsWith s ''https://'')"

section \<open>What the platform provides\<close>

text \<open>
  \<^verbatim>\<open>new URL(s)\<close> gives an object of which the server reads three fields; it throws
  on some strings. \<^verbatim>\<open>decodeURIComponent\<close> throws on a malformed escape,
  \<^verbatim>\<open>JSON.parse\<close> on malformed text. \<^verbatim>\<open>Number(s)\<close> gives a double, which is
  \<^verbatim>\<open>NaN\<close>, an infinity or a rational number. \<^verbatim>\<open>new Date(v).getTime()\<close> gives
  a whole number of milliseconds or \<^verbatim>\<open>NaN\<close>. An arithmetic operation on two finite
  doubles gives the double nearest to the exact result, or an infinity where the exact
  result is out of the range of the doubles: \<open>to_double\<close> is that rounding, from
  the exact result to the double. These are Node's, not the
  repository's, so the model takes them as a parameter: every function below that
  calls one of them has the platform as its first argument, \<open>None\<close> standing for a
  throw (for \<open>Date_getTime\<close>: for \<^verbatim>\<open>NaN\<close>), and the theorems hold for every
  platform.
\<close>

record parsed_url =
  hostname :: string
  pathname :: string
  search :: string

datatype number = NaN | NegInfinity | Finite rat | PosInfinity

record platform =
  new_URL :: "string \<Rightarrow> parsed_url option"
  decodeURIComponent :: "string \<Rightarrow> string option"
  JSON_parse :: "string \<Rightarrow> jsval option"
  Number_of :: "string \<Rightarrow> number"
  Date_getTime :: "jsval \<Rightarrow> int option"
  to_double :: "rat \<Rightarrow> number"

section \<open>Regular expressions of the image key\<close>

text \<open>
  Each regular expression of \<^verbatim>\<open>canonicalImageKey\<close> is a matcher: given the text from
  some position on, it returns the length of the match that starts there, if there is
  one. The patterns leave the matcher no choice (a run of digits ends at a non-digit,
  a run of non-slashes at a slash), so the greedy run is the only match.
\<close>

text \<open>A literal.\<close>

definition lit :: "string \<Rightarrow> string \<Rightarrow> string option" where
  "lit p s = (if startsWith s p then Some (drop (length p) s) else None)"

text \<open>\<^verbatim>\<open>c+\<close> for a character class \<open>c\<close>.\<close>

definition many1 :: "(char \<Rightarrow> bool) \<Rightarrow> string \<Rightarrow> string option" where
  "many1 c s = (if takeWhile c s = [] then None else Some (dropWhile c s))"

text \<open>The lookahead \<^verbatim>\<open>(?=\.[a-z0-9]+$)\<close>.\<close>

definition before_extension :: "string \<Rightarrow> bool" where
  "before_extension s =
     (case s of
        [] \<Rightarrow> False
      | c # t \<Rightarrow> c = CHR ''.'' \<and> t \<noteq> [] \<and> list_all is_lower_alnum t)"

definition matched :: "string \<Rightarrow> string \<Rightarrow> nat option" where
  "matched s rest = Some (length s - length rest)"

text \<open>\<^verbatim>\<open>/\/fit-in\/\d+x\d+\//\<close>\<close>

definition re_fit_in :: "string \<Rightarrow> nat option" where
  "re_fit_in s = do {
     r1 \<leftarrow> lit ''/fit-in/'' s;
     r2 \<leftarrow> many1 is_digit r1;
     r3 \<leftarrow> lit ''x'' r2;
     r4 \<leftarrow> many1 is_digit r3;
     r5 \<leftarrow> lit ''/'' r4;
     matched s r5
   }"

text \<open>\<^verbatim>\<open>/\/filters:[^/]+\//\<close>\<close>

definition re_filters :: "string \<Rightarrow> nat option" where
  "re_filters s = do {
     r1 \<leftarrow> lit ''/filters:'' s;
     r2 \<leftarrow> many1 (\<lambda>c. c \<noteq> CHR ''/'') r1;
     r3 \<leftarrow> lit ''/'' r2;
     matched s r3
   }"

text \<open>\<^verbatim>\<open>/-\d+x\d+(?=\.[a-z0-9]+$)/\<close>\<close>

definition re_size_suffix :: "string \<Rightarrow> nat option" where
  "re_size_suffix s = do {
     r1 \<leftarrow> lit ''-'' s;
     r2 \<leftarrow> many1 is_digit r1;
     r3 \<leftarrow> lit ''x'' r2;
     r4 \<leftarrow> many1 is_digit r3;
     if before_extension r4 then matched s r4 else None
   }"

text \<open>
  \<^verbatim>\<open>/_(thumb|thumbnail|small|medium|large|xl)(?=\.[a-z0-9]+$)/\<close>: the alternatives
  are tried in their order, and one counts only when the lookahead holds after it.
\<close>

fun first_alternative :: "string list \<Rightarrow> string \<Rightarrow> string option" where
  "first_alternative [] s = None"
| "first_alternative (a # as) s =
     (case lit a s of
        Some r \<Rightarrow> if before_extension r then Some r else first_alternative as s
      | None \<Rightarrow> first_alternative as s)"

definition re_variant_suffix :: "string \<Rightarrow> nat option" where
  "re_variant_suffix s = do {
     r1 \<leftarrow> lit ''_'' s;
     r2 \<leftarrow> first_alternative [''thumb'', ''thumbnail'', ''small'', ''medium'', ''large'', ''xl''] r1;
     matched s r2
   }"

text \<open>\<^verbatim>\<open>/\/+/\<close>\<close>

definition re_slashes :: "string \<Rightarrow> nat option" where
  "re_slashes s = do {
     r1 \<leftarrow> many1 (\<lambda>c. c = CHR ''/'') s;
     matched s r1
   }"

text \<open>
  \<^verbatim>\<open>s.replace(/re/g, by)\<close>: the text is scanned from the left; where the expression
  matches, the match is replaced and the scan goes on behind it. None of the
  expressions matches the empty string.
\<close>

fun replace_all :: "(string \<Rightarrow> nat option) \<Rightarrow> string \<Rightarrow> string \<Rightarrow> string" where
  "replace_all re by [] = []"
| "replace_all re by (c # s) =
     (case re (c # s) of
        Some n \<Rightarrow> by @ replace_all re by (drop (n - 1) s)
      | None \<Rightarrow> c # replace_all re by s)"

text \<open>
  \<^verbatim>\<open>/[0-9a-f]{8}-[0-9a-f]{4}-[1-5][0-9a-f]{3}-[89ab][0-9a-f]{3}-[0-9a-f]{12}/\<close>, one
  character class for each of its 36 positions.
\<close>

definition uuid_pattern :: "string list" where
  "uuid_pattern =
     (let hex = ''0123456789abcdef''; dash = ''-'' in
      replicate 8 hex @ [dash] @ replicate 4 hex @ [dash] @
      [''12345''] @ replicate 3 hex @ [dash] @
      [''89ab''] @ replicate 3 hex @ [dash] @ replicate 12 hex)"

fun match_classes :: "string list \<Rightarrow> string \<Rightarrow> string option" where
  "match_classes [] s = Some []"
| "match_classes (cls # p) [] = None"
| "match_classes (cls # p) (c # s) =
     (if c \<in> set cls then map_option ((#) c) (match_classes p s) else None)"

text \<open>\<^verbatim>\<open>s.match(re)\<close> without the \<^verbatim>\<open>g\<close> flag: the leftmost match, \<^verbatim>\<open>match[0]\<close>.\<close>

fun js_match :: "string list \<Rightarrow> string \<Rightarrow> string option" where
  "js_match p [] = match_classes p []"
| "js_match p (c # s) =
     (case match_classes p (c # s) of
        Some m \<Rightarrow> Some m
      | None \<Rightarrow> js_match p s)"

section \<open>Image URLs\<close>

text \<open>\<^verbatim>\<open>canonicalImageKey(value)\<close>\<close>

definition normalized_path :: "string \<Rightarrow> string" where
  "normalized_path decoded =
     replace_all re_slashes ''/''
       (replace_all re_variant_suffix ''''
         (replace_all re_size_suffix ''''
           (replace_all re_filters ''/''
             (replace_all re_fit_in ''/'' (toLowerCase decoded)))))"

fun canonicalImageKey :: "platform \<Rightarrow> jsval \<Rightarrow> string" where
  "canonicalImageKey P (JStr v) =
     (let trimmed = js_trim v in
      if trimmed = [] then ''''
      else
        (case js_match uuid_pattern (toLowerCase trimmed) of
           Some uuid \<Rightarrow> ''uuid:'' @ uuid
         | None \<Rightarrow>
             (case new_URL P trimmed of
                None \<Rightarrow> toLowerCase trimmed
              | Some parsed \<Rightarrow>
                  (case decodeURIComponent P (pathname parsed) of
                     None \<Rightarrow> toLowerCase trimmed
                   | Some decoded \<Rightarrow> hostname parsed @ normalized_path decoded))))"
| "canonicalImageKey P v = ''''"

text \<open>\<^verbatim>\<open>imageQualityScore(url)\<close>, on the string the caller passes.\<close>

definition imageQualityScore :: "string \<Rightarrow> int" where
  "imageQualityScore u =
     (let lower = toLowerCase u;
          s1 = (if js_includes lower ''original'' \<or> js_includes lower ''full'' then 40 else 0);
          s2 = (if js_includes lower ''large'' \<or> js_includes lower ''xl'' then s1 + 20 else s1);
          s3 = (if js_includes lower ''medium'' then s2 + 10 else s2);
          s4 = (if js_includes lower ''thumb'' \<or> js_includes lower ''thumbnail''
                   \<or> js_includes lower ''small'' then s3 - 20 else s3)
      in s4)"

text \<open>\<^verbatim>\<open>looksLikeImageUrl(value)\<close>\<close>

fun looksLikeImageUrl :: "platform \<Rightarrow> jsval \<Rightarrow> bool" where
  "looksLikeImageUrl P (JStr v) =
     (if \<not> has_http_scheme v then False
      else
        (case new_URL P v of
           None \<Rightarrow> False
         | Some parsed \<Rightarrow>
             (let path = toLowerCase (pathname parsed);
                  query = toLowerCase (search parsed);
                  hasImageExt = list_ex (endsWith path)
                    [''.jpg'', ''.jpeg'', ''.png'', ''.webp'', ''.gif'', ''.avif''];
                  hasImageHint = list_ex (js_includes query)
                    [''format=jpg'', ''format=jpeg'', ''format=png'', ''format=webp'',
                     ''fm=jpg'', ''fm=png'', ''fm=webp''];
                  looksNonImage = list_ex (endsWith path)
                    [''.mp4'', ''.mov'', ''.pdf'', ''.zip'']
              in if looksNonImage then False else hasImageExt \<or> hasImageHint)))"
| "looksLikeImageUrl P v = False"

section \<open>Numbers and values as text\<close>

text \<open>\<^verbatim>\<open>String(n)\<close> for a whole number within the safe range.\<close>

fun decimal :: "nat \<Rightarrow> string" where
  "decimal n =
     (if n < 10 then [''0123456789'' ! n]
      else decimal (n div 10) @ [''0123456789'' ! (n mod 10)])"

definition int_text :: "int \<Rightarrow> string" where
  "int_text n = (if n < 0 then ''-'' @ decimal (nat (- n)) else decimal (nat n))"

fun join_strings :: "string \<Rightarrow> string list \<Rightarrow> string" where
  "join_strings sep [] = ''''"
| "join_strings sep [s] = s"
| "join_strings sep (s # t # ss) = s @ sep @ join_strings sep (t # ss)"

text \<open>
  \<^verbatim>\<open>String(v)\<close>; an array is its elements joined by a comma, \<^verbatim>\<open>null\<close> and
  \<^verbatim>\<open>undefined\<close> elements as the empty string.
\<close>

fun js_toString :: "jsval \<Rightarrow> string" where
  "js_toString JUndefined = ''undefined''"
| "js_toString JNull = ''null''"
| "js_toString (JBool b) = (if b then ''true'' else ''false'')"
| "js_toString (JNum n) = int_text n"
| "js_toString (JStr s) = s"
| "js_toString (JArr xs) =
     join_strings '',''
       (map (\<lambda>x. if x = JUndefined \<or> x = JNull then '''' else js_toString x) xs)"
| "js_toString (JObj ps) = ''[object Object]''"

text \<open>\<^verbatim>\<open>xs.join(sep)\<close>\<close>

definition js_join :: "string \<Rightarrow> jsval list \<Rightarrow> string" where
  "js_join sep xs =
     join_strings sep
       (map (\<lambda>x. if x = JUndefined \<or> x = JNull then '''' else js_toString x) xs)"

text \<open>The text of a string inside \<^verbatim>\<open>JSON.stringify\<close>'s output.\<close>

definition hex_digit :: "nat \<Rightarrow> char" where
  "hex_digit n = ''0123456789abcdef'' ! n"

definition json_escape :: "char \<Rightarrow> string" where
  "json_escape c =
     (if c = CHR 0x22 then [CHR 0x5C, CHR 0x22]
      else if c = CHR 0x5C then [CHR 0x5C, CHR 0x5C]
      else if c = CHR 0x08 then [CHR 0x5C, CHR ''b'']
      else if c = CHR 0x0C then [CHR 0x5C, CHR ''f'']
      else if c = CHR 0x0A then [CHR 0x5C, CHR ''n'']
      else if c = CHR 0x0D then [CHR 0x5C, CHR ''r'']
      else if c = CHR 0x09 then [CHR 0x5C, CHR ''t'']
      else if (of_char c :: nat) < 32
        then [CHR 0x5C, CHR ''u'', CHR ''0'', CHR ''0'',
              hex_digit (of_char c div 16), hex_digit (of_char c mod 16)]
      else [c])"

definition json_quote :: "string \<Rightarrow> string" where
  "json_quote s = [CHR 0x22] @ concat (map json_escape s) @ [CHR 0x22]"

text \<open>
  \<^verbatim>\<open>JSON.stringify(v)\<close> for a value that is not \<^verbatim>\<open>undefined\<close> (the server calls it
  on such values only): an \<^verbatim>\<open>undefined\<close> element of an array is written
  \<^verbatim>\<open>null\<close>, an \<^verbatim>\<open>undefined\<close> property is left out.
\<close>

fun JSON_stringify :: "jsval \<Rightarrow> string" where
  "JSON_stringify JUndefined = ''null''"
| "JSON_stringify JNull = ''null''"
| "JSON_stringify (JBool b) = (if b then ''true'' else ''false'')"
| "JSON_stringify (JNum n) = int_text n"
| "JSON_stringify (JStr s) = json_quote s"
| "JSON_stringify (JArr xs) = ''['' @ join_strings '','' (map JSON_stringify xs) @ '']''"
| "JSON_stringify (JObj ps) =
     ''{'' @ join_strings '',''
       (map (\<lambda>(k, v). json_quote k @ '':'' @ JSON_stringify v)
          (filter (\<lambda>(k, v). v \<noteq> JUndefined) ps)) @ ''}''"

text \<open>
  The own enumerable properties of a value, as \<^verbatim>\<open>Object.entries(v)\<close> and the spread
  \<^verbatim>\<open>{...v}\<close> read them: an array's and a string's are its indices.
\<close>

definition indexed :: "jsval list \<Rightarrow> (string \<times> jsval) list" where
  "indexed xs = zip (map decimal [0..<length xs]) xs"

fun own_entries :: "jsval \<Rightarrow> (string \<times> jsval) list" where
  "own_entries (JObj ps) = ps"
| "own_entries (JArr xs) = indexed xs"
| "own_entries (JStr s) = indexed (map (\<lambda>c. JStr [c]) s)"
| "own_entries v = []"

text \<open>\<^verbatim>\<open>xs[i]\<close>\<close>

definition js_at :: "jsval list \<Rightarrow> nat \<Rightarrow> jsval" where
  "js_at xs i = (if i < length xs then xs ! i else JUndefined)"

section \<open>The image URL extractor\<close>

record candidate =
  url :: string
  score :: int

text \<open>
  The \<^verbatim>\<open>Map\<close> from dedupe key to candidate: a list of pairs in insertion order, which
  is the order of \<^verbatim>\<open>results.values()\<close>. \<^verbatim>\<open>results.set\<close> replaces in place the
  value of a key that is there and appends a new key, as \<^const>\<open>AList.update\<close> does.
\<close>

type_synonym results = "(string \<times> candidate) list"

text \<open>\<^verbatim>\<open>/(photo|image|thumbnail|cover|hero|media|url)/i.test(key)\<close>\<close>

definition media_key :: "string \<Rightarrow> bool" where
  "media_key k =
     list_ex (js_includes (toLowerCase k))
       [''photo'', ''image'', ''thumbnail'', ''cover'', ''hero'', ''media'', ''url'']"

text \<open>
  \<^verbatim>\<open>collectImageUrls(item, results)\<close>. \<open>visit\<close> is the callback of its
  \<^verbatim>\<open>forEach\<close>, applied to one entry, and \<open>offer\<close> the branch of the callback
  for a string value; \<open>collect_props\<close> and \<open>collect_items\<close> run the callback over
  the entries of an object and of an array; \<open>collect_children\<close> is
  \<^verbatim>\<open>value.forEach((child) => collectImageUrls(child, results))\<close>. The map
  \<^verbatim>\<open>results\<close> is threaded through all of them.
\<close>

definition offer :: "platform \<Rightarrow> string \<Rightarrow> string \<Rightarrow> results \<Rightarrow> results" where
  "offer P k v results =
     (if looksLikeImageUrl P (JStr v) then
        (if media_key k \<or> looksLikeImageUrl P (JStr v) then
           (let dedupeKey = canonicalImageKey P (JStr v) in
            if dedupeKey = [] then results
            else
              (let next = \<lparr>url = v, score = imageQualityScore v\<rparr> in
               case map_of results dedupeKey of
                 None \<Rightarrow> AList.update dedupeKey next results
               | Some current \<Rightarrow>
                   if score next \<ge> score current
                   then AList.update dedupeKey next results
                   else results))
         else results)
      else results)"

fun collectImageUrls :: "platform \<Rightarrow> jsval \<Rightarrow> results \<Rightarrow> results"
  and collect_props :: "platform \<Rightarrow> (string \<times> jsval) list \<Rightarrow> results \<Rightarrow> results"
  and collect_items :: "platform \<Rightarrow> nat \<Rightarrow> jsval list \<Rightarrow> results \<Rightarrow> results"
  and collect_children :: "platform \<Rightarrow> jsval list \<Rightarrow> results \<Rightarrow> results"
  and visit :: "platform \<Rightarrow> string \<Rightarrow> jsval \<Rightarrow> results \<Rightarrow> results"
where
  "collectImageUrls P (JObj ps) = (\<lambda>results. collect_props P ps results)"
| "collectImageUrls P (JArr xs) = (\<lambda>results. collect_items P 0 xs results)"
| "collectImageUrls P JUndefined = (\<lambda>results. results)"
| "collectImageUrls P JNull = (\<lambda>results. results)"
| "collectImageUrls P (JBool b) = (\<lambda>results. results)"
| "collectImageUrls P (JNum n) = (\<lambda>results. results)"
| "collectImageUrls P (JStr s) = (\<lambda>results. results)"
| "collect_props P [] = (\<lambda>results. results)"
| "collect_props P ((k, v) # ps) = (\<lambda>results. collect_props P ps (visit P k v results))"
| "collect_items P i [] = (\<lambda>results. results)"
| "collect_items P i (x # xs) =
     (\<lambda>results. collect_items P (Suc i) xs (visit P (decimal i) x results))"
| "collect_children P [] = (\<lambda>results. results)"
| "collect_children P (c # cs) =
     (\<lambda>results. collect_children P cs (collectImageUrls P c results))"
| "visit P k (JStr v) = (\<lambda>results. offer P k v results)"
| "visit P k (JArr xs) = (\<lambda>results. collect_children P xs results)"
| "visit P k (JObj ps) = (\<lambda>results. collectImageUrls P (JObj ps) results)"
| "visit P k JUndefined = (\<lambda>results. results)"
| "visit P k JNull = (\<lambda>results. results)"
| "visit P k (JBool b) = (\<lambda>results. results)"
| "visit P k (JNum n) = (\<lambda>results. results)"

text \<open>
  \<^verbatim>\<open>pickImage(item)\<close>: the first candidate key holding an \<^verbatim>\<open>http(s)://\<close> string,
  else the first hit among the values, depth first. \<open>pick_props\<close> and \<open>pick_values\<close>
  are the loop over \<^verbatim>\<open>Object.values(item)\<close> for an object and for an array,
  \<open>pick_children\<close> the loop over the children of an array value.
\<close>

definition candidateKeys :: "string list" where
  "candidateKeys = [''thumbnail_url'', ''cover_photo_url'', ''hero_image_url'', ''image_url'', ''url'']"

fun first_http :: "jsval \<Rightarrow> string list \<Rightarrow> string option" where
  "first_http item [] = None"
| "first_http item (k # ks) =
     (case js_get item k of
        JStr v \<Rightarrow> if has_http_scheme v then Some v else first_http item ks
      | _ \<Rightarrow> first_http item ks)"

fun pickImage :: "jsval \<Rightarrow> string"
  and pick_props :: "(string \<times> jsval) list \<Rightarrow> string"
  and pick_values :: "jsval list \<Rightarrow> string"
  and pick_children :: "jsval list \<Rightarrow> string"
  and pick_value :: "jsval \<Rightarrow> string"
where
  "pickImage (JObj ps) =
     (case first_http (JObj ps) candidateKeys of
        Some v \<Rightarrow> v
      | None \<Rightarrow> pick_props ps)"
| "pickImage (JArr xs) = pick_values xs"
| "pickImage JUndefined = ''''"
| "pickImage JNull = ''''"
| "pickImage (JBool b) = ''''"
| "pickImage (JNum n) = ''''"
| "pickImage (JStr s) = ''''"
| "pick_props [] = ''''"
| "pick_props ((k, v) # ps) =
     (let found = pick_value v in if found \<noteq> [] then found else pick_props ps)"
| "pick_values [] = ''''"
| "pick_values (v # vs) =
     (let found = pick_value v in if found \<noteq> [] then found else pick_values vs)"
| "pick_children [] = ''''"
| "pick_children (c # cs) =
     (let childImage = pickImage c in
      if childImage \<noteq> [] then childImage else pick_children cs)"
| "pick_value (JArr cs) = pick_children cs"
| "pick_value (JObj ps) = pickImage (JObj ps)"
| "pick_value JUndefined = ''''"
| "pick_value JNull = ''''"
| "pick_value (JBool b) = ''''"
| "pick_value (JNum n) = ''''"
| "pick_value (JStr s) = ''''"

section \<open>The record normalizer\<close>

text \<open>
  \<^verbatim>\<open>sanitizeShootMedia(shoot)\<close>. \<open>keep_unique\<close> is the callback of
  \<^verbatim>\<open>candidatePhotos.forEach\<close> on the \<^verbatim>\<open>Map\<close> \<^verbatim>\<open>unique\<close>, and \<open>unique_photos\<close>
  is the list \<^verbatim>\<open>photos\<close> that the function makes of the map's values, before the
  thumbnail is chosen. The result is the object
  \<^verbatim>\<open>{...shoot, thumbnail_url, photos}\<close>.
\<close>

definition keep_unique ::
  "platform \<Rightarrow> string \<Rightarrow> jsval \<Rightarrow> (string \<times> jsval) list \<Rightarrow> (string \<times> jsval) list" where
  "keep_unique P thumbKey v unique =
     (if \<not> looksLikeImageUrl P v then unique
      else
        (let key = canonicalImageKey P v in
         if key = [] then unique
         else if key = thumbKey then unique
         else if map_of unique key = None then AList.update key v unique
         else unique))"

definition rawThumb :: "jsval \<Rightarrow> jsval" where
  "rawThumb shoot = (case js_get shoot ''thumbnail_url'' of JStr s \<Rightarrow> JStr s | _ \<Rightarrow> JStr '''')"

definition candidatePhotos :: "jsval \<Rightarrow> jsval list" where
  "candidatePhotos shoot = (case js_get shoot ''photos'' of JArr xs \<Rightarrow> xs | _ \<Rightarrow> [])"

definition unique_photos :: "platform \<Rightarrow> jsval \<Rightarrow> jsval list" where
  "unique_photos P shoot =
     (let thumbKey = canonicalImageKey P (rawThumb shoot);
          unique = fold (keep_unique P thumbKey) (candidatePhotos shoot) []
      in take 24 (map snd unique))"

definition sanitizeShootMedia :: "platform \<Rightarrow> jsval \<Rightarrow> jsval" where
  "sanitizeShootMedia P shoot =
     (let photos = unique_photos P shoot;
          thumbnailUrl =
            (if looksLikeImageUrl P (rawThumb shoot) then rawThumb shoot
             else js_or (js_at photos 0) (JStr ''''))
      in JObj
           (AList.update ''photos''
              (JArr (if truthy thumbnailUrl
                     then filter (\<lambda>v. canonicalImageKey P v \<noteq> canonicalImageKey P thumbnailUrl) photos
                     else photos))
              (AList.update ''thumbnail_url'' thumbnailUrl (own_entries shoot))))"

text \<open>\<^verbatim>\<open>normalizeAddress(raw)\<close>\<close>

definition normalizeAddress :: "jsval \<Rightarrow> string" where
  "normalizeAddress raw =
     (if \<not> truthy raw then ''Address unavailable''
      else
        (case raw of
           JStr s \<Rightarrow> s
         | _ \<Rightarrow>
             (let pieces = filter truthy
                    (map (js_get raw)
                       [''street_address'', ''street'', ''address_1'', ''city'', ''state'',
                        ''postal_code''])
              in if pieces \<noteq> [] then js_join '', '' pieces
                 else take 120 (JSON_stringify raw))))"

text \<open>
  \<^verbatim>\<open>normalizeShoot(order)\<close>. \<open>listing_of\<close> is its \<^verbatim>\<open>listing\<close>, \<open>address_of\<close> the
  value it passes to \<^verbatim>\<open>normalizeAddress\<close>, and \<open>unsanitized\<close> the object it passes
  to \<^verbatim>\<open>sanitizeShootMedia\<close>. The comparator \<^verbatim>\<open>b.score - a.score\<close> sorts by falling
  score, and \<^verbatim>\<open>Array.prototype.sort\<close> is stable.
\<close>

definition listing_of :: "jsval \<Rightarrow> jsval" where
  "listing_of order = js_or (js_or (js_get order ''listing'') (js_get order ''property'')) (JObj [])"

definition address_of :: "jsval \<Rightarrow> jsval" where
  "address_of order =
     js_or (js_or (js_get (listing_of order) ''address'') (js_get order ''address'')) (listing_of order)"

definition unsanitized :: "platform \<Rightarrow> jsval \<Rightarrow> jsval" where
  "unsanitized P order =
     (let appointment =
            (case js_get order ''appointments'' of
               JArr (a # as) \<Rightarrow> a
             | _ \<Rightarrow> js_or (js_get order ''appointment'') (JObj []));
          scheduledAt =
            js_or (js_get appointment ''start_at'')
              (js_or (js_get appointment ''scheduled_at'')
                (js_or (js_get appointment ''start_time'')
                  (js_or (js_get appointment ''starts_at'')
                    (js_or (js_get order ''scheduled_at'')
                      (js_or (js_get order ''appointment_at'')
                        (js_or (js_get order ''created_at'') JNull))))));
          photos =
            take 24
              (map (\<lambda>entry. JStr (url entry))
                 (sort_key (\<lambda>entry. - score entry) (map snd (collectImageUrls P order []))))
      in JObj
           [(''id'', js_or (js_or (js_get order ''id'') (js_get order ''uuid'')) (JStr ''unknown'')),
            (''address'', JStr (normalizeAddress (address_of order))),
            (''status'',
               js_or (js_or (js_get order ''status'') (js_get order ''state'')) (JStr ''Unknown'')),
            (''scheduled_at'', scheduledAt),
            (''created_at'', js_or (js_get order ''created_at'') JNull),
            (''updated_at'', js_or (js_get order ''updated_at'') JNull),
            (''thumbnail_url'', JStr (pickImage order)),
            (''photos'', JArr photos)])"

definition normalizeShoot :: "platform \<Rightarrow> jsval \<Rightarrow> jsval" where
  "normalizeShoot P order = sanitizeShootMedia P (unsanitized P order)"

text \<open>The two fields of a shoot that the sanitizer writes.\<close>

definition thumbnail_of :: "jsval \<Rightarrow> jsval" where
  "thumbnail_of shoot = js_get shoot ''thumbnail_url''"

definition photos_of :: "jsval \<Rightarrow> jsval list" where
  "photos_of shoot = (case js_get shoot ''photos'' of JArr xs \<Rightarrow> xs | _ \<Rightarrow> [])"

section \<open>A platform for the examples\<close>

text \<open>
  The examples below run the model on concrete inputs, which needs the platform's
  answers on them. \<open>node\<close> gives Node's answers on the inputs the examples use
  and is used by the examples only:
  \<^item> \<^verbatim>\<open>new URL(s)\<close> for \<^verbatim>\<open>http(s)://host/path?query#fragment\<close> with a plain host
    (no credentials, no port) and a path and query without dot segments or
    characters that the parser would escape;
  \<^item> \<^verbatim>\<open>decodeURIComponent(s)\<close> for text without \<^verbatim>\<open>%\<close>;
  \<^item> \<^verbatim>\<open>JSON.parse(s)\<close> for the texts \<^verbatim>\<open>{}\<close>, \<^verbatim>\<open>[]\<close>, \<^verbatim>\<open>null\<close>, \<^verbatim>\<open>true\<close>
    and for \<^verbatim>\<open>abc\<close>, which is no JSON;
  \<^item> \<^verbatim>\<open>Number(s)\<close> for a string of decimal digits, for \<^verbatim>\<open>Infinity\<close> and for
    \<^verbatim>\<open>abc\<close>;
  \<^item> \<^verbatim>\<open>new Date(v).getTime()\<close> for a number of milliseconds \<open>v\<close> and for the
    string \<^verbatim>\<open>never\<close>;
  \<^item> the rounding of a whole number below \<open>2 ^ 53\<close> in magnitude, which a double
    holds exactly.
\<close>

definition plain_URL :: "string \<Rightarrow> parsed_url option" where
  "plain_URL s =
     (if \<not> has_http_scheme s then None
      else
        (let rest = drop 3 (dropWhile (\<lambda>c. c \<noteq> CHR '':'') s);
             host = takeWhile (\<lambda>c. c \<notin> set ''/?#'') rest;
             after_host = dropWhile (\<lambda>c. c \<notin> set ''/?#'') rest;
             path = takeWhile (\<lambda>c. c \<notin> set ''?#'') after_host;
             query = takeWhile (\<lambda>c. c \<noteq> CHR ''#'') (dropWhile (\<lambda>c. c \<notin> set ''?#'') after_host)
         in if host = [] then None
            else Some \<lparr>hostname = toLowerCase host,
                       pathname = (if path = [] then ''/'' else path),
                       search = (if query = ''?'' then '''' else query)\<rparr>))"

definition plain_decode :: "string \<Rightarrow> string option" where
  "plain_decode s = (if CHR ''%'' \<in> set s then None else Some s)"

definition plain_JSON :: "string \<Rightarrow> jsval option" where
  "plain_JSON s =
     (if s = ''{}'' then Some (JObj [])
      else if s = ''[]'' then Some (JArr [])
      else if s = ''null'' then Some JNull
      else if s = ''true'' then Some (JBool True)
      else None)"

definition plain_Number :: "string \<Rightarrow> number" where
  "plain_Number s =
     (if s \<noteq> [] \<and> list_all is_digit s
      then Finite (of_nat (foldl (\<lambda>n c. 10 * n + (of_char c - 48)) 0 s))
      else if s = ''Infinity'' then PosInfinity
      else NaN)"

definition plain_Date :: "jsval \<Rightarrow> int option" where
  "plain_Date v = (case v of JNum ms \<Rightarrow> Some ms | _ \<Rightarrow> None)"

definition plain_double :: "rat \<Rightarrow> number" where
  "plain_double a = Finite a"

definition node :: platform where
  "node = \<lparr>new_URL = plain_URL, decodeURIComponent = plain_decode, JSON_parse = plain_JSON,
           Number_of = plain_Number, Date_getTime = plain_Date, to_double = plain_double\<rparr>"

section \<open>Numbers of the request\<close>

text \<open>\<^verbatim>\<open>Math.min\<close> and \<^verbatim>\<open>Math.max\<close>: \<^verbatim>\<open>NaN\<close> if an argument is \<^verbatim>\<open>NaN\<close>.\<close>

fun Math_min :: "number \<Rightarrow> number \<Rightarrow> number" where
  "Math_min NaN y = NaN"
| "Math_min x NaN = NaN"
| "Math_min NegInfinity y = NegInfinity"
| "Math_min x NegInfinity = NegInfinity"
| "Math_min PosInfinity y = y"
| "Math_min x PosInfinity = x"
| "Math_min (Finite a) (Finite b) = Finite (min a b)"

fun Math_max :: "number \<Rightarrow> number \<Rightarrow> number" where
  "Math_max NaN y = NaN"
| "Math_max x NaN = NaN"
| "Math_max PosInfinity y = PosInfinity"
| "Math_max x PosInfinity = PosInfinity"
| "Math_max NegInfinity y = y"
| "Math_max x NegInfinity = x"
| "Math_max (Finite a) (Finite b) = Finite (max a b)"

text \<open>Unary minus.\<close>

fun negate :: "number \<Rightarrow> number" where
  "negate NaN = NaN"
| "negate NegInfinity = PosInfinity"
| "negate PosInfinity = NegInfinity"
| "negate (Finite a) = Finite (- a)"

text \<open>
  The product and the difference of two doubles: \<^verbatim>\<open>NaN\<close> if an argument is
  \<^verbatim>\<open>NaN\<close>, if an infinity is multiplied by 0 and if an infinity is subtracted from
  itself; the rounded exact result for two finite numbers.
\<close>

fun js_times :: "platform \<Rightarrow> number \<Rightarrow> number \<Rightarrow> number" where
  "js_times P NaN y = NaN"
| "js_times P x NaN = NaN"
| "js_times P (Finite a) (Finite b) = to_double P (a * b)"
| "js_times P (Finite a) PosInfinity =
     (if a = 0 then NaN else if 0 < a then PosInfinity else NegInfinity)"
| "js_times P (Finite a) NegInfinity =
     (if a = 0 then NaN else if 0 < a then NegInfinity else PosInfinity)"
| "js_times P PosInfinity (Finite b) =
     (if b = 0 then NaN else if 0 < b then PosInfinity else NegInfinity)"
| "js_times P NegInfinity (Finite b) =
     (if b = 0 then NaN else if 0 < b then NegInfinity else PosInfinity)"
| "js_times P PosInfinity PosInfinity = PosInfinity"
| "js_times P PosInfinity NegInfinity = NegInfinity"
| "js_times P NegInfinity PosInfinity = NegInfinity"
| "js_times P NegInfinity NegInfinity = PosInfinity"

fun js_minus :: "platform \<Rightarrow> number \<Rightarrow> number \<Rightarrow> number" where
  "js_minus P NaN y = NaN"
| "js_minus P x NaN = NaN"
| "js_minus P (Finite a) (Finite b) = to_double P (a - b)"
| "js_minus P (Finite a) PosInfinity = NegInfinity"
| "js_minus P (Finite a) NegInfinity = PosInfinity"
| "js_minus P PosInfinity (Finite b) = PosInfinity"
| "js_minus P NegInfinity (Finite b) = NegInfinity"
| "js_minus P PosInfinity PosInfinity = NaN"
| "js_minus P PosInfinity NegInfinity = PosInfinity"
| "js_minus P NegInfinity PosInfinity = NegInfinity"
| "js_minus P NegInfinity NegInfinity = NaN"

text \<open>
  \<^verbatim>\<open>x <= y\<close> on doubles: false if an argument is \<^verbatim>\<open>NaN\<close>; an infinity is equal
  to itself.
\<close>

fun js_le :: "number \<Rightarrow> number \<Rightarrow> bool" where
  "js_le NaN y = False"
| "js_le x NaN = False"
| "js_le NegInfinity y = True"
| "js_le x PosInfinity = True"
| "js_le PosInfinity y = False"
| "js_le x NegInfinity = False"
| "js_le (Finite a) (Finite b) = (a \<le> b)"

text \<open>Truthiness of a number: \<^verbatim>\<open>0\<close> and \<^verbatim>\<open>NaN\<close> are falsy.\<close>

fun truthy_number :: "number \<Rightarrow> bool" where
  "truthy_number NaN = False"
| "truthy_number (Finite a) = (a \<noteq> 0)"
| "truthy_number x = True"

text \<open>
  The index that \<^verbatim>\<open>slice\<close> makes of an argument, for a list of \<open>len\<close> elements:
  \<^verbatim>\<open>NaN\<close> counts as 0, a fraction is cut off towards 0, a negative index counts from
  the end, and the result is kept within \<open>0 .. len\<close>.
\<close>

definition js_trunc :: "rat \<Rightarrow> int" where
  "js_trunc a = (if a < 0 then - \<lfloor>- a\<rfloor> else \<lfloor>a\<rfloor>)"

fun slice_index :: "nat \<Rightarrow> number \<Rightarrow> nat" where
  "slice_index len NaN = 0"
| "slice_index len NegInfinity = 0"
| "slice_index len PosInfinity = len"
| "slice_index len (Finite a) =
     (if js_trunc a < 0 then nat (max (int len + js_trunc a) 0)
      else nat (min (js_trunc a) (int len)))"

text \<open>\<^verbatim>\<open>xs.slice(0, end)\<close> and \<^verbatim>\<open>xs.slice(start)\<close>\<close>

definition slice_to :: "number \<Rightarrow> 'a list \<Rightarrow> 'a list" where
  "slice_to stop xs = take (slice_index (length xs) stop) xs"

definition slice_from :: "number \<Rightarrow> 'a list \<Rightarrow> 'a list" where
  "slice_from start xs = drop (slice_index (length xs) start) xs"

text \<open>
  \<^verbatim>\<open>Number(url.searchParams.get(name) || dflt)\<close>: \<^verbatim>\<open>get\<close> gives \<^verbatim>\<open>null\<close> for a
  parameter that is absent, and the empty string is falsy as well.
\<close>

definition number_param :: "platform \<Rightarrow> string option \<Rightarrow> rat \<Rightarrow> number" where
  "number_param P given dflt =
     (case given of
        None \<Rightarrow> Finite dflt
      | Some s \<Rightarrow> if s = [] then Finite dflt else Number_of P s)"

section \<open>The pipeline log\<close>

text \<open>\<^verbatim>\<open>s.split("\n")\<close>\<close>

fun split_lines :: "string \<Rightarrow> string list" where
  "split_lines [] = [[]]"
| "split_lines (c # s) =
     (if c = CHR 0x0A then [] # split_lines s
      else (case split_lines s of
              [] \<Rightarrow> [[c]]
            | l # ls \<Rightarrow> (c # l) # ls))"

text \<open>The callback of \<^verbatim>\<open>sliced.map\<close>: the parsed line, or the flagged raw line.\<close>

definition parse_line :: "platform \<Rightarrow> string \<Rightarrow> jsval" where
  "parse_line P line =
     (case JSON_parse P line of
        Some v \<Rightarrow> v
      | None \<Rightarrow> JObj [(''parse_error'', JBool True), (''raw'', JStr line)])"

text \<open>
  \<^verbatim>\<open>readPipelineEvents(limit = 200)\<close>, on the content of the log file (\<open>None\<close>: there
  is no file). The limit is \<open>None\<close> when the caller passes none. \<open>select_events\<close> is
  the function from the lines on.
\<close>

definition select_events :: "platform \<Rightarrow> number \<Rightarrow> string list \<Rightarrow> jsval list" where
  "select_events P limit lines =
     (let sliced = slice_from (negate (Math_max (Finite 1) (Math_min limit (Finite 1000)))) lines
      in rev (map (parse_line P) sliced))"

definition readPipelineEvents :: "platform \<Rightarrow> number option \<Rightarrow> string option \<Rightarrow> jsval list" where
  "readPipelineEvents P limit file =
     (case file of
        None \<Rightarrow> []
      | Some content \<Rightarrow>
          select_events P (case limit of None \<Rightarrow> Finite 200 | Some n \<Rightarrow> n)
            (filter (\<lambda>line. line \<noteq> []) (split_lines (js_trim content))))"

text \<open>
  The route \<^verbatim>\<open>GET /api/pipeline/leads\<close>: the events and their count.
\<close>

definition pipeline_leads :: "platform \<Rightarrow> string option \<Rightarrow> string option \<Rightarrow> jsval list \<times> nat" where
  "pipeline_leads P limit_given file =
     (let limit = number_param P limit_given 200;
          events = readPipelineEvents P (Some limit) file
      in (events, length events))"

section \<open>The shoots cache\<close>

record cache =
  updated_at :: jsval
  shoots :: "jsval list"
  source_count :: number

text \<open>
  \<^verbatim>\<open>SHOOTS_CACHE_TTL_SECONDS\<close>, from the environment variable of that name (\<open>None\<close>:
  the variable is not set): \<^verbatim>\<open>Math.max(60, Number(process.env.SHOOTS_CACHE_TTL_SECONDS || 21600))\<close>.
  It is a double: \<^verbatim>\<open>NaN\<close> for a setting that is no number, an infinity for the
  setting \<^verbatim>\<open>Infinity\<close>.
\<close>

definition SHOOTS_CACHE_TTL_SECONDS :: "platform \<Rightarrow> string option \<Rightarrow> number" where
  "SHOOTS_CACHE_TTL_SECONDS P configured = Math_max (Finite 60) (number_param P configured 21600)"

text \<open>
  \<^verbatim>\<open>shootsCacheAgeMs()\<close> at the time \<open>now\<close> (\<^verbatim>\<open>Date.now()\<close>, a whole number of
  milliseconds).
\<close>

definition shootsCacheAgeMs :: "platform \<Rightarrow> int \<Rightarrow> cache \<Rightarrow> number" where
  "shootsCacheAgeMs P now c =
     (if \<not> truthy (updated_at c) then PosInfinity
      else
        (case Date_getTime P (updated_at c) of
           None \<Rightarrow> PosInfinity
         | Some updatedAtMs \<Rightarrow> js_minus P (Finite (of_int now)) (Finite (of_int updatedAtMs))))"

text \<open>\<^verbatim>\<open>isShootsCacheFresh()\<close>, for the TTL \<open>ttl\<close> in seconds.\<close>

definition isShootsCacheFresh :: "platform \<Rightarrow> number \<Rightarrow> int \<Rightarrow> cache \<Rightarrow> bool" where
  "isShootsCacheFresh P ttl now c =
     js_le (shootsCacheAgeMs P now c) (js_times P ttl (Finite 1000))"

section \<open>The server and its background refresh\<close>

text \<open>
  Node runs the server on one thread: a piece of code runs to its next \<^verbatim>\<open>await\<close>
  without interruption. The state is the two variables of the module,
  \<^verbatim>\<open>shootsCache\<close> and \<^verbatim>\<open>shootsRefreshPromise\<close>, the cache file, and what is pending
  in the event loop: the provider fetch sequences (calls of \<^verbatim>\<open>fetchLatestShoots\<close>)
  that have not returned yet, and the refreshes whose fetch has returned and whose
  \<^verbatim>\<open>finally\<close> callback has not run yet. A refresh is named by its number, \<open>started\<close>
  counting the fetch sequences begun so far; \<^verbatim>\<open>shootsRefreshPromise\<close> holds the
  number of the refresh whose promise it is.
\<close>

record server =
  shootsCache :: cache
  shootsRefreshPromise :: "nat option"
  cache_file :: "cache option"
  started :: nat
  fetching :: "nat list"
  settling :: "nat list"

text \<open>
  \<^verbatim>\<open>refreshShootsCacheInBackground()\<close>: the promise it returns and the new state.
  The call of \<^verbatim>\<open>fetchLatestShoots\<close> begins a fetch sequence.
\<close>

definition refreshShootsCacheInBackground :: "server \<Rightarrow> nat \<times> server" where
  "refreshShootsCacheInBackground s =
     (case shootsRefreshPromise s of
        Some p \<Rightarrow> (p, s)
      | None \<Rightarrow>
          (let p = started s
           in (p, s\<lparr>started := Suc p, fetching := p # fetching s,
                    shootsRefreshPromise := Some p\<rparr>)))"

text \<open>
  What happens to the server. \<open>Trigger\<close>: some code calls
  \<^verbatim>\<open>refreshShootsCacheInBackground\<close>. \<open>Returned p r\<close>: the fetch sequence of refresh
  \<open>p\<close> returns the next cache or throws, and the body of the refresh goes on from its
  \<^verbatim>\<open>await\<close>: with a cache it replaces \<^verbatim>\<open>shootsCache\<close> and saves it, an error is
  logged by the \<^verbatim>\<open>catch\<close>. \<open>Finally p\<close>: the \<^verbatim>\<open>finally\<close> callback of refresh \<open>p\<close>
  runs. An event that cannot happen in the state gives \<open>None\<close>.
\<close>

datatype js_error = Error (message: string)

datatype event = Trigger | Returned nat "js_error + cache" | Finally nat

fun step :: "event \<Rightarrow> server \<Rightarrow> server option" where
  "step Trigger s = Some (snd (refreshShootsCacheInBackground s))"
| "step (Returned p r) s =
     (if p \<notin> set (fetching s) then None
      else
        (let s1 = s\<lparr>fetching := removeAll p (fetching s), settling := p # settling s\<rparr>
         in case r of
              Inr nextCache \<Rightarrow> Some (s1\<lparr>shootsCache := nextCache, cache_file := Some nextCache\<rparr>)
            | Inl e \<Rightarrow> Some s1))"
| "step (Finally p) s =
     (if p \<notin> set (settling s) then None
      else Some (s\<lparr>settling := removeAll p (settling s), shootsRefreshPromise := None\<rparr>))"

fun run :: "event list \<Rightarrow> server \<Rightarrow> server option" where
  "run [] s = Some s"
| "run (e # es) s = (case step e s of None \<Rightarrow> None | Some s' \<Rightarrow> run es s')"

text \<open>
  The server when it starts: the cache as \<^verbatim>\<open>loadShootsCache\<close> left it, nothing
  pending.
\<close>

definition starting :: "cache \<Rightarrow> cache option \<Rightarrow> server" where
  "starting c file =
     \<lparr>shootsCache = c, shootsRefreshPromise = None, cache_file = file,
      started = 0, fetching = [], settling = []\<rparr>"

section \<open>The route of the shoots\<close>

record request =
  limit_param :: "string option"
  refresh_param :: "string option"

record reply =
  status_code :: nat
  body_shoots :: "jsval list"
  body_source_count :: number
  cache_updated_at :: jsval
  cache_fresh :: bool
  cache_refreshing :: bool
  cache_ttl_seconds :: number

text \<open>
  \<^verbatim>\<open>handleShoots(req, res, url)\<close> from \<^verbatim>\<open>const shoots = ...\<close> on: the reply written
  from the state at the time \<open>now\<close>.
\<close>

definition pageSize_of :: "platform \<Rightarrow> request \<Rightarrow> number" where
  "pageSize_of P req =
     (let limit = number_param P (limit_param req) 24
      in Math_max (Finite 1) (Math_min limit (Finite 100)))"

definition shoots_reply :: "platform \<Rightarrow> number \<Rightarrow> int \<Rightarrow> number \<Rightarrow> server \<Rightarrow> reply" where
  "shoots_reply P ttl now pageSize s =
     (let shoots = slice_to pageSize (map (sanitizeShootMedia P) (shoots (shootsCache s)))
      in \<lparr>status_code = 200,
          body_shoots = shoots,
          body_source_count =
            (if truthy_number (source_count (shootsCache s)) then source_count (shootsCache s)
             else Finite (of_nat (length shoots))),
          cache_updated_at = updated_at (shootsCache s),
          cache_fresh = isShootsCacheFresh P ttl now (shootsCache s),
          cache_refreshing = (shootsRefreshPromise s \<noteq> None),
          cache_ttl_seconds = ttl\<rparr>)"

text \<open>
  \<^verbatim>\<open>handleShoots\<close> up to its reply or to its \<^verbatim>\<open>await\<close>. With an empty cache the
  handler awaits the refresh and goes on (\<open>resume_handleShoots\<close>) when the promise
  is settled; otherwise it replies at once. \<open>now\<close> is the time of the staleness
  check, \<open>now'\<close> the time of the reply. Of the request the handler reads
  \<^verbatim>\<open>limit\<close> only.
\<close>

datatype handled = Replied reply | Awaiting nat number

definition handleShoots ::
  "platform \<Rightarrow> number \<Rightarrow> int \<Rightarrow> int \<Rightarrow> request \<Rightarrow> server \<Rightarrow> handled \<times> server" where
  "handleShoots P ttl now now' req s =
     (let pageSize = pageSize_of P req
      in if shoots (shootsCache s) = [] then
           (let (p, s') = refreshShootsCacheInBackground s in (Awaiting p pageSize, s'))
         else if \<not> isShootsCacheFresh P ttl now (shootsCache s) then
           (let (p, s') = refreshShootsCacheInBackground s
            in (Replied (shoots_reply P ttl now' pageSize s'), s'))
         else (Replied (shoots_reply P ttl now' pageSize s), s))"

definition resume_handleShoots :: "platform \<Rightarrow> number \<Rightarrow> int \<Rightarrow> number \<Rightarrow> server \<Rightarrow> reply" where
  "resume_handleShoots P ttl now' pageSize s = shoots_reply P ttl now' pageSize s"

section \<open>The provider client\<close>

text \<open>
  The provider is reached by \<^verbatim>\<open>fetch\<close>, which the model takes as a parameter: a
  function from the request and the state of the world to the outcome and the next
  state of the world. The outcome is an error (the promise is rejected) or a response,
  whose body the client reads as text or as JSON.
\<close>

record config =
  API_BASE :: string
  API_TOKEN :: string

record http_request =
  target :: string
  search_params :: "(string \<times> string) list"
  authorization :: string

record http_response =
  ok :: bool
  status :: int
  body_text :: "js_error + string"
  body_json :: "js_error + jsval"

type_synonym 'w http = "http_request \<Rightarrow> 'w \<Rightarrow> (js_error + http_response) \<times> 'w"

type_synonym params = "(string \<times> jsval) list"

text \<open>
  \<^verbatim>\<open>fetchAryeo(resource, searchParams)\<close>. \<^verbatim>\<open>url.searchParams.set\<close> replaces a
  parameter that is there and appends a new one.
\<close>

definition set_param :: "string \<times> jsval \<Rightarrow> (string \<times> string) list \<Rightarrow> (string \<times> string) list" where
  "set_param entry q =
     (case entry of
        (key, v) \<Rightarrow>
          if v \<noteq> JUndefined \<and> v \<noteq> JNull \<and> v \<noteq> JStr '''' then AList.update key (js_toString v) q
          else q)"

definition fetchAryeo ::
  "config \<Rightarrow> 'w http \<Rightarrow> string \<Rightarrow> params \<Rightarrow> 'w \<Rightarrow> (js_error + jsval) \<times> 'w" where
  "fetchAryeo cfg http resource searchParams w =
     (if API_TOKEN cfg = [] then
        (Inl (Error ''Missing ARYEO_API_TOKEN. Add it to your environment before calling Aryeo.''), w)
      else
        (let request = \<lparr>target = API_BASE cfg @ resource,
                        search_params = fold set_param searchParams [],
                        authorization = ''Bearer '' @ API_TOKEN cfg\<rparr>
         in case http request w of
              (Inl e, w') \<Rightarrow> (Inl e, w')
            | (Inr response, w') \<Rightarrow>
                if \<not> ok response then
                  (case body_text response of
                     Inl e \<Rightarrow> (Inl e, w')
                   | Inr errText \<Rightarrow>
                       (Inl (Error (''Aryeo API '' @ int_text (status response) @ '': ''
                                    @ take 300 errText)), w'))
                else (body_json response, w')))"

text \<open>
  \<^verbatim>\<open>fetchAryeoWithIncludeFallback(resource, searchParams, fallbackIncludes)\<close>.
  \<open>includeCandidates\<close> is the list the function builds first, \<open>with_include\<close> the
  \<^verbatim>\<open>nextParams\<close> of one round, \<open>includeRejected\<close> the test of the \<^verbatim>\<open>catch\<close>, and
  \<open>try_includes\<close> the \<^verbatim>\<open>for\<close> loop with the \<^verbatim>\<open>throw\<close> behind it.
\<close>

definition trimmed_include :: "jsval \<Rightarrow> string list" where
  "trimmed_include v =
     (case v of
        JStr s \<Rightarrow> if js_trim s \<noteq> [] then [js_trim s] else []
      | _ \<Rightarrow> [])"

definition includeCandidates :: "params \<Rightarrow> jsval list \<Rightarrow> string list" where
  "includeCandidates ps fallbackIncludes =
     trimmed_include (js_get (JObj ps) ''include'')
       @ concat (map trimmed_include fallbackIncludes) @ ['''']"

definition with_include :: "string \<Rightarrow> params \<Rightarrow> params" where
  "with_include includeValue ps =
     (if includeValue \<noteq> [] then AList.update ''include'' (JStr includeValue) ps
      else AList.delete ''include'' ps)"

definition includeRejected :: "js_error \<Rightarrow> bool" where
  "includeRejected e =
     (js_includes (message e) ''Requested include(s)'' \<or> js_includes (message e) ''not allowed'')"

fun try_includes ::
  "config \<Rightarrow> 'w http \<Rightarrow> string \<Rightarrow> params \<Rightarrow> js_error option \<Rightarrow> string list \<Rightarrow> 'w
     \<Rightarrow> (js_error + jsval) \<times> 'w" where
  "try_includes cfg http resource ps lastError [] w =
     (Inl (case lastError of Some e \<Rightarrow> e | None \<Rightarrow> Error ''Aryeo request failed''), w)"
| "try_includes cfg http resource ps lastError (includeValue # rest) w =
     (case fetchAryeo cfg http resource (with_include includeValue ps) w of
        (Inr payload, w') \<Rightarrow> (Inr payload, w')
      | (Inl e, w') \<Rightarrow>
          if \<not> includeRejected e \<or> includeValue = [] then (Inl e, w')
          else try_includes cfg http resource ps (Some e) rest w')"

definition fetchAryeoWithIncludeFallback ::
  "config \<Rightarrow> 'w http \<Rightarrow> string \<Rightarrow> params \<Rightarrow> jsval list \<Rightarrow> 'w \<Rightarrow> (js_error + jsval) \<times> 'w" where
  "fetchAryeoWithIncludeFallback cfg http resource searchParams fallbackIncludes w =
     try_includes cfg http resource searchParams None
       (includeCandidates searchParams fallbackIncludes) w"

text \<open>
  The call of the client in \<^verbatim>\<open>handleOrderStatus\<close>: the \<^verbatim>\<open>payload\<close> it awaits, for
  \<open>encodedOrderId\<close> the result of \<^verbatim>\<open>encodeURIComponent(orderId)\<close>. The first fallback
  is the include of the parameters once more.
\<close>

definition handleOrderStatus_payload ::
  "config \<Rightarrow> 'w http \<Rightarrow> string \<Rightarrow> 'w \<Rightarrow> (js_error + jsval) \<times> 'w" where
  "handleOrderStatus_payload cfg http encodedOrderId w =
     fetchAryeoWithIncludeFallback cfg http (''/orders/'' @ encodedOrderId)
       [(''include'', JStr ''listing,appointments'')]
       [JStr ''listing,appointments'', JStr ''listing''] w"

text \<open>
  A world that answers the \<open>n\<close>-th request with \<open>answers n\<close> and keeps the requests
  it was sent. Whatever the provider does during one call of the client, it is such
  a world for some \<open>answers\<close>.
\<close>

type_synonym scripted = "http_request list \<times> (nat \<Rightarrow> js_error + http_response)"

definition scripted_fetch :: "scripted http" where
  "scripted_fetch request w =
     (case w of (sent, answers) \<Rightarrow> (answers (length sent), (sent @ [request], answers)))"

text \<open>What \<^verbatim>\<open>fetchAryeo\<close> makes of an answer.\<close>

definition aryeo_outcome :: "js_error + http_response \<Rightarrow> js_error + jsval" where
  "aryeo_outcome answer =
     (case answer of
        Inl e \<Rightarrow> Inl e
      | Inr response \<Rightarrow>
          if \<not> ok response then
            (case body_text response of
               Inl e \<Rightarrow> Inl e
             | Inr errText \<Rightarrow>
                 Inl (Error (''Aryeo API '' @ int_text (status response) @ '': '' @ take 300 errText)))
          else body_json response)"

text \<open>
  The request that \<^verbatim>\<open>fetchAryeo\<close> sends for an include candidate, and whether the
  outcome of that attempt makes the client try the next candidate.
\<close>

definition request_for :: "config \<Rightarrow> string \<Rightarrow> params \<Rightarrow> string \<Rightarrow> http_request" where
  "request_for cfg resource ps includeValue =
     \<lparr>target = API_BASE cfg @ resource,
      search_params = fold set_param (with_include includeValue ps) [],
      authorization = ''Bearer '' @ API_TOKEN cfg\<rparr>"

definition retried :: "string \<Rightarrow> js_error + jsval \<Rightarrow> bool" where
  "retried includeValue outcome =
     (case outcome of
        Inl e \<Rightarrow> includeRejected e \<and> includeValue \<noteq> []
      | Inr payload \<Rightarrow> False)"

section \<open>Notions used in the properties\<close>

text \<open>
  What holds of every entry \<open>(key, value)\<close> of the map \<^verbatim>\<open>unique\<close> in
  \<^verbatim>\<open>sanitizeShootMedia\<close>.
\<close>

definition kept :: "platform \<Rightarrow> string \<Rightarrow> string \<times> jsval \<Rightarrow> bool" where
  "kept P thumbKey e =
     (looksLikeImageUrl P (snd e) \<and> canonicalImageKey P (snd e) = fst e
      \<and> fst e \<noteq> [] \<and> fst e \<noteq> thumbKey)"

text \<open>The \<^verbatim>\<open>thumbnailUrl\<close> of \<^verbatim>\<open>sanitizeShootMedia\<close>.\<close>

definition chosen_thumbnail :: "platform \<Rightarrow> jsval \<Rightarrow> jsval" where
  "chosen_thumbnail P shoot =
     (if looksLikeImageUrl P (rawThumb shoot) then rawThumb shoot
      else js_or (js_at (unique_photos P shoot) 0) (JStr ''''))"

text \<open>No photo of the shoot has the canonical key of the shoot's thumbnail.\<close>

definition media_disjoint :: "platform \<Rightarrow> jsval \<Rightarrow> bool" where
  "media_disjoint P shoot =
     (\<forall>u \<in> set (photos_of shoot).
        canonicalImageKey P u \<noteq> canonicalImageKey P (thumbnail_of shoot))"

text \<open>The empty string or an image URL.\<close>

definition image_or_empty :: "platform \<Rightarrow> jsval \<Rightarrow> bool" where
  "image_or_empty P v = (v = JStr '''' \<or> looksLikeImageUrl P v)"

text \<open>
  The candidates that \<^verbatim>\<open>collectImageUrls\<close> offers to the map, in the order in which
  it comes to them: \<open>offered\<close> for a string value, \<open>seen\<close> for a record, with one
  function for each function of the traversal. \<open>put\<close> is what the traversal does
  to the map with one candidate.
\<close>

definition offered :: "platform \<Rightarrow> string \<Rightarrow> (string \<times> candidate) list" where
  "offered P v =
     (if looksLikeImageUrl P (JStr v) \<and> canonicalImageKey P (JStr v) \<noteq> []
      then [(canonicalImageKey P (JStr v), \<lparr>url = v, score = imageQualityScore v\<rparr>)]
      else [])"

definition put :: "string \<times> candidate \<Rightarrow> results \<Rightarrow> results" where
  "put e results =
     (case map_of results (fst e) of
        None \<Rightarrow> AList.update (fst e) (snd e) results
      | Some current \<Rightarrow>
          if score (snd e) \<ge> score current then AList.update (fst e) (snd e) results
          else results)"

fun seen :: "platform \<Rightarrow> jsval \<Rightarrow> (string \<times> candidate) list"
  and seen_props :: "platform \<Rightarrow> (string \<times> jsval) list \<Rightarrow> (string \<times> candidate) list"
  and seen_items :: "platform \<Rightarrow> jsval list \<Rightarrow> (string \<times> candidate) list"
  and seen_children :: "platform \<Rightarrow> jsval list \<Rightarrow> (string \<times> candidate) list"
  and seen_value :: "platform \<Rightarrow> jsval \<Rightarrow> (string \<times> candidate) list"
where
  "seen P (JObj ps) = seen_props P ps"
| "seen P (JArr xs) = seen_items P xs"
| "seen P JUndefined = []"
| "seen P JNull = []"
| "seen P (JBool b) = []"
| "seen P (JNum n) = []"
| "seen P (JStr s) = []"
| "seen_props P [] = []"
| "seen_props P ((k, v) # ps) = seen_value P v @ seen_props P ps"
| "seen_items P [] = []"
| "seen_items P (x # xs) = seen_value P x @ seen_items P xs"
| "seen_children P [] = []"
| "seen_children P (c # cs) = seen P c @ seen_children P cs"
| "seen_value P (JStr v) = offered P v"
| "seen_value P (JArr xs) = seen_children P xs"
| "seen_value P (JObj ps) = seen P (JObj ps)"
| "seen_value P JUndefined = []"
| "seen_value P JNull = []"
| "seen_value P (JBool b) = []"
| "seen_value P (JNum n) = []"

text \<open>The candidates of one dedupe key, in that order.\<close>

definition candidates_of :: "platform \<Rightarrow> jsval \<Rightarrow> string \<Rightarrow> candidate list" where
  "candidates_of P item k = map snd (filter (\<lambda>e. fst e = k) (seen P item))"

text \<open>The candidate that a key holds after one more candidate of that key.\<close>

definition holds_after :: "candidate option \<Rightarrow> candidate \<Rightarrow> candidate option" where
  "holds_after current c =
     (case current of
        None \<Rightarrow> Some c
      | Some b \<Rightarrow> if score c \<ge> score b then Some c else Some b)"

text \<open>
  At most one refresh is pending, and \<^verbatim>\<open>shootsRefreshPromise\<close> holds its number:
  with no promise nothing is pending; with a promise exactly its refresh is pending,
  either fetching or, its fetch returned, before its \<^verbatim>\<open>finally\<close> callback.
\<close>

definition single_flight :: "server \<Rightarrow> bool" where
  "single_flight s =
     (case shootsRefreshPromise s of
        None \<Rightarrow> fetching s = [] \<and> settling s = []
      | Some p \<Rightarrow>
          p < started s
          \<and> (fetching s = [p] \<and> settling s = [] \<or> fetching s = [] \<and> settling s = [p]))"

text \<open>
  The include parameter of each request that a scripted world has been sent, in the
  order of the requests; \<open>None\<close> for a request without the parameter.
\<close>

definition includes_sent :: "scripted \<Rightarrow> string option list" where
  "includes_sent w = map (\<lambda>request. map_of (search_params request) ''include'') (fst w)"

section \<open>Examples\<close>

text \<open>
  An order whose thumbnail and first image are variants of one picture, and a cached
  shoot of an older snapshot whose photos repeat its thumbnail.
\<close>

definition order_A :: jsval where
  "order_A =
     JObj [(''id'', JStr ''A''),
           (''thumbnail_url'', JStr ''https://h.io/a_thumb.jpg''),
           (''images'', JArr [JObj [(''url'', JStr ''https://h.io/a_large.jpg'')],
                              JObj [(''url'', JStr ''https://h.io/b.jpg'')]])]"

definition shoot_B :: jsval where
  "shoot_B =
     JObj [(''id'', JStr ''B''),
           (''thumbnail_url'', JStr ''https://h.io/t.jpg''),
           (''photos'', JArr [JStr ''https://h.io/t.jpg'', JStr ''https://h.io/b.jpg''])]"

text \<open>An order whose hero key holds a document, not an image.\<close>

definition order_C :: jsval where
  "order_C =
     JObj [(''id'', JStr ''C''),
           (''cover_photo_url'', JStr ''https://h.io/brochure.pdf''),
           (''images'', JArr [JObj [(''src'', JStr ''https://h.io/c.jpg'')]])]"

text \<open>An order with two variants of one picture that score alike.\<close>

definition order_T :: jsval where
  "order_T =
     JObj [(''first'', JStr ''https://h.io/p.jpg''),
           (''second'', JStr ''https://h.io/p-800x600.jpg'')]"

text \<open>
  A server whose cache holds one shoot and was updated at the millisecond 1000000,
  with no refresh pending, and two times: half a second and two minutes later.
\<close>

definition cache_B :: cache where
  "cache_B = \<lparr>updated_at = JNum 1000000, shoots = [shoot_B], source_count = Finite 1\<rparr>"

definition server_B :: server where
  "server_B = starting cache_B (Some cache_B)"

definition soon :: int where
  "soon = 1000500"

definition later :: int where
  "later = 1120000"

text \<open>
  A log file of \<open>n\<close> lines, each the JSON text of the empty object, and two
  requests: one whose limit is no number, one that asks for a refresh.
\<close>

definition log_of :: "nat \<Rightarrow> string" where
  "log_of n = concat (replicate n (''{}'' @ [CHR 0x0A]))"

definition abc_request :: request where
  "abc_request = \<lparr>limit_param = Some ''abc'', refresh_param = None\<rparr>"

definition forced_request :: request where
  "forced_request = \<lparr>limit_param = Some ''24'', refresh_param = Some ''1''\<rparr>"

text \<open>
  A server that starts with an empty cache, and a run of events: two triggers, the
  fetch of the first refresh returns a cache, a trigger before and two after the
  \<^verbatim>\<open>finally\<close> callback.
\<close>

definition empty_cache :: cache where
  "empty_cache = \<lparr>updated_at = JNull, shoots = [], source_count = Finite 0\<rparr>"

definition busy :: "event list" where
  "busy = [Trigger, Trigger, Returned 0 (Inr cache_B), Trigger, Finally 0, Trigger, Trigger]"

text \<open>
  A call of the provider client as \<^verbatim>\<open>fetchLatestShoots\<close> makes it, and three
  providers. The first rejects the first request with a body that holds
  \<^verbatim>\<open>Requested include(s)\<close> only and accepts the second. The second rejects the first
  request with a body that holds \<^verbatim>\<open>not allowed\<close> only, fails on the second request
  with neither phrase and would accept a third. The third rejects every request, with
  the number of the request in the status.
\<close>

definition cfg0 :: config where
  "cfg0 = \<lparr>API_BASE = ''https://api.aryeo.com/v1'', API_TOKEN = ''secret''\<rparr>"

definition params0 :: params where
  "params0 = [(''page'', JNum 1), (''page_size'', JNum 100),
              (''include'', JStr ''listing,appointments,items,tags'')]"

definition fallbacks0 :: "jsval list" where
  "fallbacks0 = [JStr ''listing,appointments,items'', JStr ''listing,appointments'']"

definition answers0 :: "nat \<Rightarrow> js_error + http_response" where
  "answers0 n =
     (if n = 0 then
        Inr \<lparr>ok = False, status = 422,
             body_text = Inr ''Requested include(s) refused'',
             body_json = Inl (Error ''Unexpected token'')\<rparr>
      else
        Inr \<lparr>ok = True, status = 200, body_text = Inr ''{}'',
             body_json = Inr (JObj [(''data'', JArr [])])\<rparr>)"

definition answers1 :: "nat \<Rightarrow> js_error + http_response" where
  "answers1 n =
     (if n = 0 then
        Inr \<lparr>ok = False, status = 403,
             body_text = Inr ''The include tags is not allowed'',
             body_json = Inl (Error ''Unexpected token'')\<rparr>
      else if n = 1 then
        Inr \<lparr>ok = False, status = 500,
             body_text = Inr ''Internal Server Error'',
             body_json = Inl (Error ''Unexpected token'')\<rparr>
      else
        Inr \<lparr>ok = True, status = 200, body_text = Inr ''{}'',
             body_json = Inr (JObj [(''data'', JArr [])])\<rparr>)"

definition answers2 :: "nat \<Rightarrow> js_error + http_response" where
  "answers2 n =
     Inr \<lparr>ok = False, status = 420 + int n,
          body_text = Inr ''not allowed'',
          body_json = Inl (Error ''Unexpected token'')\<rparr>"

section \<open>Sanitized media\<close>

lemma set_update_subset: "set (AList.update k v al) \<subseteq> insert (k, v) (set al)"
  by (induction al) auto

lemma image_url_truthy: "looksLikeImageUrl P v \<Longrightarrow> truthy v"
  by (cases v) (auto simp: has_http_scheme_def split: if_splits)

lemma falsy_key: "\<not> truthy v \<Longrightarrow> canonicalImageKey P v = []"
  by (cases v) (auto simp: js_trim_def)

lemma keep_unique_kept:
  "list_all (kept P tk) acc \<Longrightarrow> list_all (kept P tk) (keep_unique P tk v acc)"
  using set_update_subset [of "canonicalImageKey P v" v acc]
  by (auto simp: keep_unique_def Let_def list_all_iff kept_def)

lemma fold_keep_unique_kept:
  "list_all (kept P tk) acc \<Longrightarrow> list_all (kept P tk) (fold (keep_unique P tk) xs acc)"
  by (induction xs arbitrary: acc) (auto intro: keep_unique_kept)

lemma unique_photos_kept:
  assumes "u \<in> set (unique_photos P shoot)"
  shows "looksLikeImageUrl P u \<and> canonicalImageKey P u \<noteq> []
         \<and> canonicalImageKey P u \<noteq> canonicalImageKey P (rawThumb shoot)"
proof -
  let ?tk = "canonicalImageKey P (rawThumb shoot)"
  let ?unique = "fold (keep_unique P ?tk) (candidatePhotos shoot) []"
  have all: "list_all (kept P ?tk) ?unique"
    by (rule fold_keep_unique_kept) simp
  from assms have "u \<in> set (map snd ?unique)"
    by (auto simp: unique_photos_def Let_def dest: in_set_takeD)
  then obtain e where "e \<in> set ?unique" "u = snd e" by auto
  with all show ?thesis by (auto simp: list_all_iff kept_def)
qed

lemma thumbnail_of_sanitize:
  "thumbnail_of (sanitizeShootMedia P shoot) = chosen_thumbnail P shoot"
  by (simp add: thumbnail_of_def sanitizeShootMedia_def Let_def update_conv' chosen_thumbnail_def)

lemma photos_of_sanitize:
  "photos_of (sanitizeShootMedia P shoot) =
     (if truthy (chosen_thumbnail P shoot)
      then filter (\<lambda>v. canonicalImageKey P v \<noteq> canonicalImageKey P (chosen_thumbnail P shoot))
             (unique_photos P shoot)
      else unique_photos P shoot)"
  by (simp add: photos_of_def sanitizeShootMedia_def Let_def update_conv' chosen_thumbnail_def)

lemma chosen_thumbnail_fallback:
  "\<not> looksLikeImageUrl P (rawThumb shoot) \<Longrightarrow>
   chosen_thumbnail P shoot = (case unique_photos P shoot of [] \<Rightarrow> JStr '''' | p # ps \<Rightarrow> p)"
proof (cases "unique_photos P shoot")
  case Nil
  assume "\<not> looksLikeImageUrl P (rawThumb shoot)"
  with Nil show ?thesis by (simp add: chosen_thumbnail_def js_at_def js_or_def)
next
  case (Cons p ps)
  assume raw: "\<not> looksLikeImageUrl P (rawThumb shoot)"
  from Cons have "looksLikeImageUrl P p" using unique_photos_kept [of p P shoot] by simp
  with raw Cons show ?thesis
    by (simp add: chosen_thumbnail_def js_at_def js_or_def image_url_truthy)
qed

lemma chosen_thumbnail_image_or_empty: "image_or_empty P (chosen_thumbnail P shoot)"
proof (cases "looksLikeImageUrl P (rawThumb shoot)")
  case True
  then show ?thesis by (simp add: chosen_thumbnail_def image_or_empty_def)
next
  case False
  show ?thesis
  proof (cases "unique_photos P shoot")
    case Nil
    with False show ?thesis by (simp add: chosen_thumbnail_fallback image_or_empty_def)
  next
    case (Cons p ps)
    then have "looksLikeImageUrl P p" using unique_photos_kept [of p P shoot] by simp
    with False Cons show ?thesis by (simp add: chosen_thumbnail_fallback image_or_empty_def)
  qed
qed

lemma sanitize_media_disjoint: "media_disjoint P (sanitizeShootMedia P shoot)"
  unfolding media_disjoint_def
proof
  fix u
  assume u: "u \<in> set (photos_of (sanitizeShootMedia P shoot))"
  show "canonicalImageKey P u \<noteq> canonicalImageKey P (thumbnail_of (sanitizeShootMedia P shoot))"
  proof (cases "truthy (chosen_thumbnail P shoot)")
    case True
    with u show ?thesis by (simp add: photos_of_sanitize thumbnail_of_sanitize)
  next
    case False
    with u have "u \<in> set (unique_photos P shoot)" by (simp add: photos_of_sanitize)
    then have "canonicalImageKey P u \<noteq> []" using unique_photos_kept by blast
    with False show ?thesis by (simp add: thumbnail_of_sanitize falsy_key)
  qed
qed

lemma reply_shoots_sanitized:
  "x \<in> set (body_shoots (shoots_reply P ttl now pageSize s)) \<Longrightarrow>
   \<exists>shoot. x = sanitizeShootMedia P shoot"
  by (auto simp: shoots_reply_def Let_def slice_to_def dest!: in_set_takeD)

lemma handleShoots_replies:
  "fst (handleShoots P ttl now now' req s) = Replied r \<Longrightarrow>
   \<exists>pageSize s'. r = shoots_reply P ttl now' pageSize s'"
  by (auto simp: handleShoots_def Let_def split: if_splits prod.splits)

lemma rawThumb_unsanitized: "rawThumb (unsanitized P order) = JStr (pickImage order)"
  by (simp add: rawThumb_def unsanitized_def Let_def)

text \<open>
  C1. The photos of the shoot that \<^verbatim>\<open>normalizeShoot\<close> makes of a raw record hold
  no URL whose canonical key is the canonical key of the shoot's thumbnail, and the
  same holds of every shoot in a reply of \<^verbatim>\<open>GET /api/shoots\<close>, whether the
  handler replies at once or after it has awaited the refresh: the reply sanitizes
  what the cache holds.
\<close>

theorem photos_exclude_thumbnail:
  "media_disjoint P (normalizeShoot P order)
   \<and> (\<forall>r. fst (handleShoots P ttl now now' req s) = Replied r
          \<longrightarrow> list_all (media_disjoint P) (body_shoots r))
   \<and> list_all (media_disjoint P) (body_shoots (resume_handleShoots P ttl now' pageSize s))"
proof (intro conjI allI impI)
  show "media_disjoint P (normalizeShoot P order)"
    by (simp add: normalizeShoot_def sanitize_media_disjoint)
next
  fix r
  assume "fst (handleShoots P ttl now now' req s) = Replied r"
  then obtain n s' where "r = shoots_reply P ttl now' n s'"
    using handleShoots_replies by blast
  then show "list_all (media_disjoint P) (body_shoots r)"
    using reply_shoots_sanitized sanitize_media_disjoint
    by (fastforce simp: list_all_iff)
next
  show "list_all (media_disjoint P) (body_shoots (resume_handleShoots P ttl now' pageSize s))"
    using reply_shoots_sanitized sanitize_media_disjoint
    by (fastforce simp: list_all_iff resume_handleShoots_def)
qed

lemma order_A_normalized:
  "photos_of (normalizeShoot node order_A) = [JStr ''https://h.io/b.jpg'']
   \<and> thumbnail_of (normalizeShoot node order_A) = JStr ''https://h.io/a_thumb.jpg''
   \<and> canonicalImageKey node (JStr ''https://h.io/b.jpg'') = ''h.io/b.jpg''
   \<and> canonicalImageKey node (JStr ''https://h.io/a_thumb.jpg'') = ''h.io/a.jpg''
   \<and> canonicalImageKey node (JStr ''https://h.io/a_large.jpg'') = ''h.io/a.jpg''"
  by code_simp

lemma server_B_reply:
  "fst (handleShoots node (Finite 60) soon soon \<lparr>limit_param = None, refresh_param = None\<rparr> server_B)
     = Replied (shoots_reply node (Finite 60) soon (Finite 24) server_B)
   \<and> map photos_of (body_shoots (shoots_reply node (Finite 60) soon (Finite 24) server_B))
       = [[JStr ''https://h.io/b.jpg'']]
   \<and> map thumbnail_of (body_shoots (shoots_reply node (Finite 60) soon (Finite 24) server_B))
       = [JStr ''https://h.io/t.jpg'']"
  by code_simp

theorem photos_exclude_thumbnail_witness:
  "photos_of (normalizeShoot node order_A) = [JStr ''https://h.io/b.jpg'']
   \<and> thumbnail_of (normalizeShoot node order_A) = JStr ''https://h.io/a_thumb.jpg''
   \<and> media_disjoint node (normalizeShoot node order_A)
   \<and> fst (handleShoots node (Finite 60) soon soon \<lparr>limit_param = None, refresh_param = None\<rparr> server_B)
       = Replied (shoots_reply node (Finite 60) soon (Finite 24) server_B)
   \<and> map photos_of (body_shoots (shoots_reply node (Finite 60) soon (Finite 24) server_B))
       = [[JStr ''https://h.io/b.jpg'']]
   \<and> list_all (media_disjoint node) (body_shoots (shoots_reply node (Finite 60) soon (Finite 24) server_B))"
  using photos_exclude_thumbnail
          [of node order_A "Finite 60" soon soon "\<lparr>limit_param = None, refresh_param = None\<rparr>" server_B]
        order_A_normalized server_B_reply
  by simp

text \<open>
  C10. The thumbnail of a shoot that \<^verbatim>\<open>sanitizeShootMedia\<close> returns is the empty
  string or passes \<^verbatim>\<open>looksLikeImageUrl\<close>; so it is for the shoot that
  \<^verbatim>\<open>normalizeShoot\<close> makes of a record and for every shoot in a reply of
  \<^verbatim>\<open>GET /api/shoots\<close>. Where the URL that \<^verbatim>\<open>pickImage\<close> found in the record is no
  image URL, the thumbnail is the first photo that survived, or empty when none did.
\<close>

theorem thumbnail_image_or_empty:
  "image_or_empty P (thumbnail_of (sanitizeShootMedia P shoot))
   \<and> image_or_empty P (thumbnail_of (normalizeShoot P order))
   \<and> (\<forall>r. fst (handleShoots P ttl now now' req s) = Replied r
          \<longrightarrow> list_all (\<lambda>x. image_or_empty P (thumbnail_of x)) (body_shoots r))
   \<and> list_all (\<lambda>x. image_or_empty P (thumbnail_of x))
        (body_shoots (resume_handleShoots P ttl now' pageSize s))
   \<and> (\<not> looksLikeImageUrl P (JStr (pickImage order))
        \<longrightarrow> thumbnail_of (normalizeShoot P order)
             = (case unique_photos P (unsanitized P order) of [] \<Rightarrow> JStr '''' | p # ps \<Rightarrow> p))"
proof (intro conjI allI impI)
  show "image_or_empty P (thumbnail_of (sanitizeShootMedia P shoot))"
    by (simp add: thumbnail_of_sanitize chosen_thumbnail_image_or_empty)
next
  show "image_or_empty P (thumbnail_of (normalizeShoot P order))"
    by (simp add: normalizeShoot_def thumbnail_of_sanitize chosen_thumbnail_image_or_empty)
next
  fix r
  assume "fst (handleShoots P ttl now now' req s) = Replied r"
  then obtain n s' where "r = shoots_reply P ttl now' n s'"
    using handleShoots_replies by blast
  then show "list_all (\<lambda>x. image_or_empty P (thumbnail_of x)) (body_shoots r)"
    using reply_shoots_sanitized thumbnail_of_sanitize chosen_thumbnail_image_or_empty
    by (fastforce simp: list_all_iff)
next
  show "list_all (\<lambda>x. image_or_empty P (thumbnail_of x))
          (body_shoots (resume_handleShoots P ttl now' pageSize s))"
    using reply_shoots_sanitized thumbnail_of_sanitize chosen_thumbnail_image_or_empty
    by (fastforce simp: list_all_iff resume_handleShoots_def)
next
  assume "\<not> looksLikeImageUrl P (JStr (pickImage order))"
  then show "thumbnail_of (normalizeShoot P order)
             = (case unique_photos P (unsanitized P order) of [] \<Rightarrow> JStr '''' | p # ps \<Rightarrow> p)"
    by (simp add: normalizeShoot_def thumbnail_of_sanitize chosen_thumbnail_fallback
                  rawThumb_unsanitized)
qed

lemma order_C_normalized:
  "pickImage order_C = ''https://h.io/brochure.pdf''
   \<and> \<not> looksLikeImageUrl node (JStr ''https://h.io/brochure.pdf'')
   \<and> unique_photos node (unsanitized node order_C) = [JStr ''https://h.io/c.jpg'']
   \<and> looksLikeImageUrl node (JStr ''https://h.io/c.jpg'')"
  by code_simp

theorem thumbnail_image_or_empty_witness:
  "pickImage order_C = ''https://h.io/brochure.pdf''
   \<and> \<not> looksLikeImageUrl node (JStr (pickImage order_C))
   \<and> thumbnail_of (normalizeShoot node order_C) = JStr ''https://h.io/c.jpg''
   \<and> image_or_empty node (thumbnail_of (normalizeShoot node order_C))
   \<and> fst (handleShoots node (Finite 60) soon soon \<lparr>limit_param = None, refresh_param = None\<rparr> server_B)
       = Replied (shoots_reply node (Finite 60) soon (Finite 24) server_B)
   \<and> list_all (\<lambda>x. image_or_empty node (thumbnail_of x))
        (body_shoots (shoots_reply node (Finite 60) soon (Finite 24) server_B))"
proof -
  note all = thumbnail_image_or_empty
     [of node shoot_B order_C "Finite 60" soon soon "\<lparr>limit_param = None, refresh_param = None\<rparr>"
         server_B]
  have picked: "pickImage order_C = ''https://h.io/brochure.pdf''"
    using order_C_normalized by blast
  have no_image: "\<not> looksLikeImageUrl node (JStr (pickImage order_C))"
    using order_C_normalized by (simp del: looksLikeImageUrl.simps)
  have survived: "unique_photos node (unsanitized node order_C) = [JStr ''https://h.io/c.jpg'']"
    using order_C_normalized by blast
  have thumbnail: "thumbnail_of (normalizeShoot node order_C) = JStr ''https://h.io/c.jpg''"
    using all no_image survived by (simp del: looksLikeImageUrl.simps)
  have image: "image_or_empty node (thumbnail_of (normalizeShoot node order_C))"
    using all by blast
  have replied:
    "fst (handleShoots node (Finite 60) soon soon \<lparr>limit_param = None, refresh_param = None\<rparr> server_B)
       = Replied (shoots_reply node (Finite 60) soon (Finite 24) server_B)"
    using server_B_reply by blast
  have served:
    "list_all (\<lambda>x. image_or_empty node (thumbnail_of x))
       (body_shoots (shoots_reply node (Finite 60) soon (Finite 24) server_B))"
    using all replied by blast
  from picked no_image thumbnail image replied served show ?thesis
    by blast
qed

section \<open>The extractor's choice among candidates of one key\<close>

lemma offer_fold: "offer P k v results = fold put (offered P v) results"
  by (simp add: offer_def offered_def put_def Let_def split: option.splits)

lemma collect_fold:
  "collectImageUrls P item = fold put (seen P item)"
  "collect_props P ps = fold put (seen_props P ps)"
  "collect_items P i xs = fold put (seen_items P xs)"
  "collect_children P cs = fold put (seen_children P cs)"
  "visit P k v = fold put (seen_value P v)"
  by (induction P item and P ps and P i xs and P cs and P k v
        rule: collectImageUrls_collect_props_collect_items_collect_children_visit.induct)
     (auto simp: fun_eq_iff offer_fold)

lemma map_of_put:
  "map_of (put e results) k =
     (if fst e = k then holds_after (map_of results k) (snd e) else map_of results k)"
  by (auto simp: put_def holds_after_def update_conv' split: option.splits)

lemma map_of_fold_put:
  "map_of (fold put cs results) k =
     foldl holds_after (map_of results k) (map snd (filter (\<lambda>e. fst e = k) cs))"
  by (induction cs arbitrary: results) (simp_all add: map_of_put)

lemma holds_after_some: "holds_after current c \<noteq> None"
  by (simp add: holds_after_def split: option.splits)

lemma foldl_holds_after_last:
  "foldl holds_after None cs = (if cs = [] then None else Some w) \<Longrightarrow> cs \<noteq> [] \<Longrightarrow>
   \<exists>before after. cs = before @ w # after
      \<and> (\<forall>c \<in> set before. score c \<le> score w) \<and> (\<forall>c \<in> set after. score c < score w)"
proof (induction cs arbitrary: w rule: rev_induct)
  case Nil
  then show ?case by simp
next
  case (snoc c cs)
  show ?case
  proof (cases "cs = []")
    case True
    with snoc.prems have "w = c" by (simp add: holds_after_def)
    with True show ?thesis by (intro exI [of _ "[]"]) simp
  next
    case False
    obtain b where b: "foldl holds_after None cs = Some b"
    proof (cases "foldl holds_after None cs")
      case None
      with False show ?thesis
        by (cases cs rule: rev_cases) (auto simp: holds_after_some)
    next
      case (Some b)
      then show ?thesis using that by blast
    qed
    with False snoc.IH [of b] obtain before after where
      split: "cs = before @ b # after"
      and le: "\<forall>x \<in> set before. score x \<le> score b"
      and less: "\<forall>x \<in> set after. score x < score b"
      by auto
    from b snoc.prems have step: "holds_after (Some b) c = Some w" by simp
    show ?thesis
    proof (cases "score c \<ge> score b")
      case True
      with step have "w = c" by (simp add: holds_after_def)
      moreover from split le less True have "\<forall>x \<in> set cs. score x \<le> score c" by fastforce
      ultimately show ?thesis by (intro exI [of _ cs] exI [of _ "[]"]) simp
    next
      case False
      with step have "w = b" by (simp add: holds_after_def)
      with split le less False show ?thesis
        by (intro exI [of _ before] exI [of _ "after @ [c]"]) auto
    qed
  qed
qed

lemma foldl_holds_after_nonempty: "cs \<noteq> [] \<Longrightarrow> \<exists>w. foldl holds_after None cs = Some w"
  by (cases cs rule: rev_cases) (auto simp: holds_after_def split: option.splits)

lemma collected_candidate:
  "map_of (collectImageUrls P item []) k = foldl holds_after None (candidates_of P item k)"
  by (simp add: collect_fold map_of_fold_put candidates_of_def)

text \<open>
  C5, as the code has it. The map of \<^verbatim>\<open>collectImageUrls\<close> holds nothing for a key
  that no candidate of the record has. For any other key it holds the last of the
  key's candidates with the highest score: no candidate seen before it scores higher,
  and every candidate seen after it scores lower. So of two candidates of one key
  with equal scores the one seen later replaces the one seen first (the comparison
  is \<^verbatim>\<open>>=\<close>).
\<close>

theorem last_best_candidate_kept:
  "(candidates_of P item k = [] \<longrightarrow> map_of (collectImageUrls P item []) k = None)
   \<and> (candidates_of P item k \<noteq> [] \<longrightarrow>
        (\<exists>before w after.
           candidates_of P item k = before @ w # after
           \<and> map_of (collectImageUrls P item []) k = Some w
           \<and> (\<forall>c \<in> set before. score c \<le> score w)
           \<and> (\<forall>c \<in> set after. score c < score w)))"
proof (intro conjI impI)
  assume "candidates_of P item k = []"
  then show "map_of (collectImageUrls P item []) k = None"
    by (simp add: collected_candidate)
next
  assume ne: "candidates_of P item k \<noteq> []"
  then obtain w where w: "foldl holds_after None (candidates_of P item k) = Some w"
    using foldl_holds_after_nonempty by blast
  with ne foldl_holds_after_last [of "candidates_of P item k" w]
  obtain before after where
    "candidates_of P item k = before @ w # after"
    "\<forall>c \<in> set before. score c \<le> score w" "\<forall>c \<in> set after. score c < score w"
    by auto
  with w show "\<exists>before w after.
           candidates_of P item k = before @ w # after
           \<and> map_of (collectImageUrls P item []) k = Some w
           \<and> (\<forall>c \<in> set before. score c \<le> score w)
           \<and> (\<forall>c \<in> set after. score c < score w)"
    by (auto simp: collected_candidate)
qed

text \<open>
  C5 as stated fails: the two URLs of \<open>order_T\<close> are image URLs with the same
  canonical key and the same score, and the map keeps the URL seen second, not the
  one seen first.
\<close>

theorem first_seen_not_kept:
  "looksLikeImageUrl node (JStr ''https://h.io/p.jpg'')
   \<and> looksLikeImageUrl node (JStr ''https://h.io/p-800x600.jpg'')
   \<and> canonicalImageKey node (JStr ''https://h.io/p.jpg'') = ''h.io/p.jpg''
   \<and> canonicalImageKey node (JStr ''https://h.io/p-800x600.jpg'') = ''h.io/p.jpg''
   \<and> imageQualityScore ''https://h.io/p.jpg'' = 0
   \<and> imageQualityScore ''https://h.io/p-800x600.jpg'' = 0
   \<and> collectImageUrls node order_T []
       = [(''h.io/p.jpg'', \<lparr>url = ''https://h.io/p-800x600.jpg'', score = 0\<rparr>)]"
  by code_simp

lemma order_T_candidates:
  "candidates_of node order_T ''h.io/p.jpg''
     = [\<lparr>url = ''https://h.io/p.jpg'', score = 0\<rparr>,
        \<lparr>url = ''https://h.io/p-800x600.jpg'', score = 0\<rparr>]"
  by code_simp

theorem last_best_candidate_kept_witness:
  "candidates_of node order_T ''h.io/p.jpg''
     = [\<lparr>url = ''https://h.io/p.jpg'', score = 0\<rparr>,
        \<lparr>url = ''https://h.io/p-800x600.jpg'', score = 0\<rparr>]
   \<and> (\<exists>before w after.
         candidates_of node order_T ''h.io/p.jpg'' = before @ w # after
         \<and> map_of (collectImageUrls node order_T []) ''h.io/p.jpg'' = Some w
         \<and> (\<forall>c \<in> set before. score c \<le> score w)
         \<and> (\<forall>c \<in> set after. score c < score w))"
  using last_best_candidate_kept [of node order_T "''h.io/p.jpg''"] order_T_candidates
  by simp

section \<open>The address of a shoot\<close>

lemma listing_of_truthy: "truthy (listing_of order)"
  by (simp add: listing_of_def js_or_def)

lemma address_of_truthy: "truthy (address_of order)"
  by (simp add: address_of_def js_or_def listing_of_truthy)

lemma sanitize_keeps_field:
  "k \<noteq> ''thumbnail_url'' \<Longrightarrow> k \<noteq> ''photos'' \<Longrightarrow>
   js_get (sanitizeShootMedia P (JObj ps)) k = js_get (JObj ps) k"
  by (simp add: sanitizeShootMedia_def Let_def update_conv')

lemma normalizeShoot_address:
  "js_get (normalizeShoot P order) ''address'' = JStr (normalizeAddress (address_of order))"
  by (simp add: normalizeShoot_def unsanitized_def Let_def sanitize_keeps_field)

lemma no_address_data:
  "normalizeAddress (address_of (JObj [])) = ''{}''
   \<and> normalizeAddress (address_of (JObj [(''id'', JStr ''A1'')])) = ''{}''
   \<and> normalizeAddress (address_of JNull) = ''{}''
   \<and> normalizeAddress JUndefined = ''Address unavailable''"
  by code_simp

text \<open>
  C6, at the record without address data. The address of a normalized shoot is
  \<^verbatim>\<open>normalizeAddress\<close> of \<open>address_of order\<close>, and that value is never falsy,
  since \<^verbatim>\<open>listing\<close> falls back to \<^verbatim>\<open>{}\<close>. So the branch of
  \<^verbatim>\<open>normalizeAddress\<close> that returns \<^verbatim>\<open>Address unavailable\<close> is not reached from
  \<^verbatim>\<open>normalizeShoot\<close>: for the record \<^verbatim>\<open>{}\<close>, and for a record with an id and
  nothing else, the address is the text \<^verbatim>\<open>{}\<close>, the JSON of the empty listing.
\<close>

theorem address_unavailable_unreachable:
  "js_get (normalizeShoot P order) ''address'' = JStr (normalizeAddress (address_of order))
   \<and> truthy (address_of order)
   \<and> js_get (normalizeShoot P (JObj [])) ''address'' = JStr ''{}''
   \<and> js_get (normalizeShoot P (JObj [(''id'', JStr ''A1'')])) ''address'' = JStr ''{}''
   \<and> normalizeAddress JUndefined = ''Address unavailable''"
  using no_address_data by (simp add: normalizeShoot_address address_of_truthy)

text \<open>
  What holds of the address otherwise: the value comes from the listing's address,
  else from the order's address, else it is the listing itself; a string is returned
  as it is, an object is joined from its truthy parts, and what is left is the JSON
  text cut to 120 characters.
\<close>

lemma address_precedence:
  "address_of order =
     (if truthy (js_get (listing_of order) ''address'') then js_get (listing_of order) ''address''
      else if truthy (js_get order ''address'') then js_get order ''address''
      else listing_of order)"
  by (simp add: address_of_def js_or_def)

lemma normalizeAddress_string: "s \<noteq> [] \<Longrightarrow> normalizeAddress (JStr s) = s"
  by (simp add: normalizeAddress_def)

lemma normalizeAddress_structured:
  assumes "pieces = filter truthy
             (map (js_get (JObj ps))
                [''street_address'', ''street'', ''address_1'', ''city'', ''state'', ''postal_code''])"
  shows "normalizeAddress (JObj ps) =
           (if pieces \<noteq> [] then js_join '', '' pieces else take 120 (JSON_stringify (JObj ps)))"
  using assms by (simp add: normalizeAddress_def Let_def)

lemma normalizeAddress_excerpt:
  "normalizeAddress (JObj []) = ''{}'' \<and> length (take 120 (JSON_stringify raw)) \<le> 120"
  by (simp add: normalizeAddress_def)

section \<open>Freshness of the cache\<close>

text \<open>
  The configured TTL: the default without a setting or with an empty one, else the
  number of the setting raised to at least 60, where it is a number. A setting that
  is no number leaves \<^verbatim>\<open>NaN\<close>, and an infinite setting an infinite TTL.
\<close>

lemma configured_ttl:
  "SHOOTS_CACHE_TTL_SECONDS P None = Finite 21600
   \<and> SHOOTS_CACHE_TTL_SECONDS P (Some []) = Finite 21600
   \<and> (s \<noteq> [] \<and> Number_of P s = Finite a
        \<longrightarrow> SHOOTS_CACHE_TTL_SECONDS P (Some s) = Finite (max 60 a))
   \<and> (s \<noteq> [] \<and> Number_of P s = PosInfinity
        \<longrightarrow> SHOOTS_CACHE_TTL_SECONDS P (Some s) = PosInfinity)
   \<and> (s \<noteq> [] \<and> Number_of P s = NaN \<longrightarrow> SHOOTS_CACHE_TTL_SECONDS P (Some s) = NaN)"
  by (simp add: SHOOTS_CACHE_TTL_SECONDS_def number_param_def)

lemma undated_age:
  "\<not> truthy (updated_at c) \<or> Date_getTime P (updated_at c) = None
   \<Longrightarrow> shootsCacheAgeMs P now c = PosInfinity"
  by (auto simp: shootsCacheAgeMs_def)

lemma dated_age:
  "truthy (updated_at c) \<Longrightarrow> Date_getTime P (updated_at c) = Some t
   \<Longrightarrow> shootsCacheAgeMs P now c = to_double P (of_int now - of_int t)"
  by (simp add: shootsCacheAgeMs_def)

lemma infinity_le: "js_le PosInfinity y \<longleftrightarrow> y = PosInfinity"
  by (cases y) simp_all

lemma infinite_product:
  "js_times P ttl (Finite 1000) = PosInfinity
   \<longleftrightarrow> ttl = PosInfinity \<or> (\<exists>q. ttl = Finite q \<and> to_double P (q * 1000) = PosInfinity)"
  by (cases ttl) simp_all

text \<open>
  The boundary, for a finite TTL of \<open>q\<close> seconds. The product \<^verbatim>\<open>TTL * 1000\<close> is a
  double \<open>m\<close>, which may differ from the exact product by the rounding; as long as
  it differs by less than 1000, a cache stamped exactly \<open>q + 1\<close> seconds before now is
  not fresh and one stamped exactly \<open>q - 1\<close> seconds before now is fresh. The age is
  the difference of two whole numbers of milliseconds, which a double holds exactly
  for the time values of this era.
\<close>

lemma cache_freshness_boundary:
  assumes ttl: "to_double P (q * 1000) = Finite m" "\<bar>m - q * 1000\<bar> < 1000"
    and dated: "truthy (updated_at c)" "Date_getTime P (updated_at c) = Some t"
    and exact: "to_double P (of_int now - of_int t) = Finite (of_int now - of_int t)"
  shows "of_int now - of_int t = (q + 1) * 1000 \<Longrightarrow> \<not> isShootsCacheFresh P (Finite q) now c"
    and "of_int now - of_int t = (q - 1) * 1000 \<Longrightarrow> isShootsCacheFresh P (Finite q) now c"
    and "isShootsCacheFresh P (Finite q) now c \<longleftrightarrow> of_int now - of_int t \<le> m"
proof -
  show iff: "isShootsCacheFresh P (Finite q) now c \<longleftrightarrow> of_int now - of_int t \<le> m"
    by (simp add: isShootsCacheFresh_def dated_age [OF dated] exact ttl(1))
  show "\<not> isShootsCacheFresh P (Finite q) now c" if "of_int now - of_int t = (q + 1) * 1000"
    using that ttl(2) by (simp add: iff algebra_simps abs_less_iff)
  show "isShootsCacheFresh P (Finite q) now c" if "of_int now - of_int t = (q - 1) * 1000"
    using that ttl(2) by (simp add: iff algebra_simps abs_less_iff)
qed

text \<open>
  A cache without a time: \<^verbatim>\<open>updated_at\<close> is falsy (\<^verbatim>\<open>null\<close>) or does not parse.
  Its age is infinite, and it is fresh exactly when the product \<^verbatim>\<open>TTL * 1000\<close> is
  infinite as well: with an infinite TTL, or with a finite one whose product is out
  of the range of the doubles. With any other TTL it is not fresh, and with the TTL
  \<^verbatim>\<open>NaN\<close> no cache is.
\<close>

lemma undated_fresh_iff:
  assumes "\<not> truthy (updated_at c) \<or> Date_getTime P (updated_at c) = None"
  shows "isShootsCacheFresh P ttl now c
         \<longleftrightarrow> ttl = PosInfinity \<or> (\<exists>q. ttl = Finite q \<and> to_double P (q * 1000) = PosInfinity)"
  by (simp add: isShootsCacheFresh_def undated_age [OF assms] infinity_le infinite_product)

lemma undated_not_fresh:
  assumes "\<not> truthy (updated_at c) \<or> Date_getTime P (updated_at c) = None"
    and "to_double P (q * 1000) \<noteq> PosInfinity"
  shows "\<not> isShootsCacheFresh P (Finite q) now c"
  using assms(2) by (simp add: undated_fresh_iff [OF assms(1)])

lemma overflowing_ttl_undated_fresh:
  assumes "\<not> truthy (updated_at c) \<or> Date_getTime P (updated_at c) = None"
    and "to_double P (q * 1000) = PosInfinity"
  shows "isShootsCacheFresh P (Finite q) now c"
  using assms(2) by (simp add: undated_fresh_iff [OF assms(1)])

lemma nan_ttl_never_fresh: "\<not> isShootsCacheFresh P NaN now c"
  by (cases "shootsCacheAgeMs P now c") (simp_all add: isShootsCacheFresh_def)

text \<open>
  The cache of the examples, stamped at 1000000, under a TTL of 60 seconds: not fresh
  61 seconds later, fresh 59 seconds later, and not fresh without a time.
\<close>

lemma cache_B_boundary:
  "SHOOTS_CACHE_TTL_SECONDS node (Some ''60'') = Finite 60
   \<and> \<not> isShootsCacheFresh node (Finite 60) 1061000 cache_B
   \<and> isShootsCacheFresh node (Finite 60) 1059000 cache_B
   \<and> \<not> isShootsCacheFresh node (Finite 60) 1059000 (cache_B\<lparr>updated_at := JNull\<rparr>)
   \<and> \<not> isShootsCacheFresh node (Finite 60) 1059000 (cache_B\<lparr>updated_at := JStr ''never''\<rparr>)"
proof -
  have setting: "SHOOTS_CACHE_TTL_SECONDS node (Some ''60'') = Finite 60"
    by code_simp
  have product: "to_double node (60 * 1000) = Finite 60000" "\<bar>60000 - 60 * 1000 :: rat\<bar> < 1000"
    by (simp_all add: node_def plain_double_def)
  have dated: "truthy (updated_at cache_B)" "Date_getTime node (updated_at cache_B) = Some 1000000"
    by (simp_all add: cache_B_def node_def plain_Date_def)
  have exact: "to_double node (of_int now - of_int 1000000) = Finite (of_int now - of_int 1000000)"
    for now
    by (simp add: node_def plain_double_def)
  have stale: "\<not> isShootsCacheFresh node (Finite 60) 1061000 cache_B"
    using cache_freshness_boundary(1) [OF product dated exact, of 1061000] by simp
  have fresh: "isShootsCacheFresh node (Finite 60) 1059000 cache_B"
    using cache_freshness_boundary(2) [OF product dated exact, of 1059000] by simp
  have finite: "to_double node (60 * 1000) \<noteq> PosInfinity"
    by (simp add: node_def plain_double_def)
  have null: "\<not> isShootsCacheFresh node (Finite 60) 1059000 (cache_B\<lparr>updated_at := JNull\<rparr>)"
    using undated_not_fresh [of "cache_B\<lparr>updated_at := JNull\<rparr>" node 60 1059000] finite
    by simp
  have never: "\<not> isShootsCacheFresh node (Finite 60) 1059000 (cache_B\<lparr>updated_at := JStr ''never''\<rparr>)"
    using undated_not_fresh [of "cache_B\<lparr>updated_at := JStr ''never''\<rparr>" node 60 1059000] finite
    by (simp add: node_def plain_Date_def)
  show ?thesis
    using setting stale fresh null never by (intro conjI)
qed

text \<open>
  C7. The last clause of the claim does not hold for every configured TTL. With the
  setting \<^verbatim>\<open>Infinity\<close> the TTL is infinite, and so is \<^verbatim>\<open>TTL * 1000\<close>; a cache whose
  \<^verbatim>\<open>updated_at\<close> is \<^verbatim>\<open>null\<close> or does not parse has the age
  \<^verbatim>\<open>Number.POSITIVE_INFINITY\<close>, and \<^verbatim>\<open>Infinity <= Infinity\<close> is true: the cache is
  reported as fresh. The route of the shoots then serves a cache that holds shoots
  and no time as fresh, and it starts no refresh.
\<close>

theorem undated_cache_fresh_under_infinite_ttl:
  "SHOOTS_CACHE_TTL_SECONDS node (Some ''Infinity'') = PosInfinity
   \<and> isShootsCacheFresh P PosInfinity now (c\<lparr>updated_at := JNull\<rparr>)
   \<and> Date_getTime node (JStr ''never'') = None
   \<and> isShootsCacheFresh node PosInfinity soon (cache_B\<lparr>updated_at := JStr ''never''\<rparr>)
   \<and> handleShoots node PosInfinity soon soon \<lparr>limit_param = None, refresh_param = None\<rparr>
        (server_B\<lparr>shootsCache := cache_B\<lparr>updated_at := JNull\<rparr>\<rparr>)
       = (Replied (shoots_reply node PosInfinity soon (Finite 24)
                     (server_B\<lparr>shootsCache := cache_B\<lparr>updated_at := JNull\<rparr>\<rparr>)),
          server_B\<lparr>shootsCache := cache_B\<lparr>updated_at := JNull\<rparr>\<rparr>)
   \<and> cache_fresh (shoots_reply node PosInfinity soon (Finite 24)
                     (server_B\<lparr>shootsCache := cache_B\<lparr>updated_at := JNull\<rparr>\<rparr>))
   \<and> \<not> cache_refreshing (shoots_reply node PosInfinity soon (Finite 24)
                     (server_B\<lparr>shootsCache := cache_B\<lparr>updated_at := JNull\<rparr>\<rparr>))"
proof -
  have null: "isShootsCacheFresh P PosInfinity now (c\<lparr>updated_at := JNull\<rparr>)" for P now c
    by (simp add: isShootsCacheFresh_def shootsCacheAgeMs_def)
  have never: "Date_getTime node (JStr ''never'') = None"
    by (simp add: node_def plain_Date_def)
  have unparsed: "isShootsCacheFresh node PosInfinity soon (cache_B\<lparr>updated_at := JStr ''never''\<rparr>)"
    by (simp add: isShootsCacheFresh_def shootsCacheAgeMs_def never)
  have setting: "SHOOTS_CACHE_TTL_SECONDS node (Some ''Infinity'') = PosInfinity"
    by code_simp
  have held: "shoots (shootsCache (server_B\<lparr>shootsCache := cache_B\<lparr>updated_at := JNull\<rparr>\<rparr>)) \<noteq> []"
    by (simp add: cache_B_def)
  have size: "pageSize_of node \<lparr>limit_param = None, refresh_param = None\<rparr> = Finite 24"
    by (simp add: pageSize_of_def number_param_def)
  have route: "handleShoots node PosInfinity soon soon \<lparr>limit_param = None, refresh_param = None\<rparr>
        (server_B\<lparr>shootsCache := cache_B\<lparr>updated_at := JNull\<rparr>\<rparr>)
       = (Replied (shoots_reply node PosInfinity soon (Finite 24)
                     (server_B\<lparr>shootsCache := cache_B\<lparr>updated_at := JNull\<rparr>\<rparr>)),
          server_B\<lparr>shootsCache := cache_B\<lparr>updated_at := JNull\<rparr>\<rparr>)"
    using held by (simp add: handleShoots_def size null)
  have fresh: "cache_fresh (shoots_reply node PosInfinity soon (Finite 24)
                     (server_B\<lparr>shootsCache := cache_B\<lparr>updated_at := JNull\<rparr>\<rparr>))"
    by (simp add: shoots_reply_def Let_def null)
  have idle: "\<not> cache_refreshing (shoots_reply node PosInfinity soon (Finite 24)
                     (server_B\<lparr>shootsCache := cache_B\<lparr>updated_at := JNull\<rparr>\<rparr>))"
    by (simp add: shoots_reply_def Let_def server_B_def starting_def)
  show ?thesis
    using setting null never unparsed route fresh idle by (intro conjI)
qed

section \<open>The limits of the two routes\<close>

lemma trunc_negative: "1 \<le> a \<Longrightarrow> js_trunc (- a) = - \<lfloor>a\<rfloor>"
  by (simp add: js_trunc_def)

lemma slice_last:
  fixes c :: rat
  assumes "1 \<le> c"
  shows "slice_from (negate (Finite c)) xs = drop (length xs - nat \<lfloor>c\<rfloor>) xs"
proof -
  from assms have pos: "1 \<le> \<lfloor>c\<rfloor>" by (simp only: le_floor_iff of_int_1)
  have t: "js_trunc (- c) = - \<lfloor>c\<rfloor>" using assms by (rule trunc_negative)
  have "slice_index (length xs) (Finite (- c)) = length xs - nat \<lfloor>c\<rfloor>"
  proof -
    have "slice_index (length xs) (Finite (- c)) = nat (max (int (length xs) + - \<lfloor>c\<rfloor>) 0)"
      using pos by (simp add: t)
    also have "\<dots> = length xs - nat \<lfloor>c\<rfloor>"
      using pos by linarith
    finally show ?thesis .
  qed
  then show ?thesis by (simp add: slice_from_def)
qed

lemma slice_first:
  fixes c :: rat
  assumes "1 \<le> c"
  shows "slice_to (Finite c) xs = take (nat \<lfloor>c\<rfloor>) xs"
proof -
  from assms have pos: "1 \<le> \<lfloor>c\<rfloor>" by (simp only: le_floor_iff of_int_1)
  from assms have t: "js_trunc c = \<lfloor>c\<rfloor>" by (simp add: js_trunc_def)
  have "slice_index (length xs) (Finite c) = nat (min \<lfloor>c\<rfloor> (int (length xs)))"
    using pos by (simp add: t)
  also have "\<dots> = min (nat \<lfloor>c\<rfloor>) (length xs)"
    using pos by linarith
  finally have "slice_index (length xs) (Finite c) = min (nat \<lfloor>c\<rfloor>) (length xs)" .
  then show ?thesis by (simp add: slice_to_def min_def)
qed

text \<open>
  What holds of the log read for every limit: the entries are the selected lines in
  reverse, each parsed or, where it does not parse, flagged with the raw line; and
  for a limit that is a number the selected lines are the last \<open>k\<close> lines, \<open>k\<close>
  being the limit kept within 1 and 1000 and cut to a whole number.
\<close>

lemma events_newest_first:
  "select_events P limit lines =
     rev (map (parse_line P)
       (slice_from (negate (Math_max (Finite 1) (Math_min limit (Finite 1000)))) lines))"
  by (simp add: select_events_def)

lemma unparseable_line_flagged:
  "JSON_parse P line = None \<Longrightarrow>
   parse_line P line = JObj [(''parse_error'', JBool True), (''raw'', JStr line)]"
  by (simp add: parse_line_def)

lemma parseable_line_parsed: "JSON_parse P line = Some v \<Longrightarrow> parse_line P line = v"
  by (simp add: parse_line_def)

lemma corrupted_line_flagged_in_place:
  assumes "sliced = slice_from (negate (Math_max (Finite 1) (Math_min limit (Finite 1000)))) lines"
    and "i < length sliced"
    and "JSON_parse P (sliced ! i) = None"
  shows "length (select_events P limit lines) = length sliced
         \<and> select_events P limit lines ! (length sliced - Suc i)
             = JObj [(''parse_error'', JBool True), (''raw'', JStr (sliced ! i))]
         \<and> (\<forall>j < length sliced. \<forall>v. JSON_parse P (sliced ! j) = Some v
               \<longrightarrow> select_events P limit lines ! (length sliced - Suc j) = v)"
proof -
  have events: "select_events P limit lines = rev (map (parse_line P) sliced)"
    using assms(1) by (simp add: select_events_def)
  have at: "rev (map (parse_line P) sliced) ! (length sliced - Suc j) = parse_line P (sliced ! j)"
    if "j < length sliced" for j
    using that by (simp add: rev_nth)
  show ?thesis
    using assms(2,3) by (simp add: events at unparseable_line_flagged parseable_line_parsed)
qed

lemma numeric_limit_window:
  "select_events P (Finite q) lines
     = rev (map (parse_line P) (drop (length lines - nat \<lfloor>max 1 (min q 1000)\<rfloor>) lines))"
proof -
  have "(1::rat) \<le> max 1 (min q 1000)" by simp
  then have "slice_from (negate (Finite (max 1 (min q 1000)))) lines
             = drop (length lines - nat \<lfloor>max 1 (min q 1000)\<rfloor>) lines"
    by (rule slice_last)
  then show ?thesis by (simp add: select_events_def)
qed

lemma select_events_NaN: "select_events P NaN lines = rev (map (parse_line P) lines)"
  by (simp add: select_events_def slice_from_def)

lemma split_lines_line:
  "CHR 0x0A \<notin> set l \<Longrightarrow> split_lines (l @ CHR 0x0A # rest) = l # split_lines rest"
  by (induction l) auto

lemma split_lines_last: "CHR 0x0A \<notin> set l \<Longrightarrow> split_lines l = [l]"
  by (induction l) auto

lemma split_lines_log:
  "split_lines (log_of n @ ''{}'') = replicate (Suc n) ''{}''"
proof (induction n)
  case 0
  show ?case by (simp add: log_of_def)
next
  case (Suc n)
  have "log_of (Suc n) @ ''{}'' = ''{}'' @ CHR 0x0A # (log_of n @ ''{}'')"
    by (simp add: log_of_def)
  then show ?case using Suc split_lines_line [of "''{}''" "log_of n @ ''{}''"] by simp
qed

lemma log_of_Suc: "log_of (Suc n) = CHR ''{'' # CHR ''}'' # CHR 0x0A # log_of n"
  by (simp add: log_of_def)

lemma log_of_snoc: "log_of (Suc n) = log_of n @ ''{}'' @ [CHR 0x0A]"
proof -
  have "replicate (Suc n) (''{}'' @ [CHR 0x0A]) = replicate n (''{}'' @ [CHR 0x0A]) @ [''{}'' @ [CHR 0x0A]]"
    by (simp add: replicate_append_same)
  then have "concat (replicate (Suc n) (''{}'' @ [CHR 0x0A]))
             = concat (replicate n (''{}'' @ [CHR 0x0A])) @ (''{}'' @ [CHR 0x0A])"
    by (simp only: concat_append concat.simps append_Nil2)
  then show ?thesis by (simp add: log_of_def)
qed

lemma trim_log: "js_trim (log_of (Suc n)) = log_of n @ ''{}''"
proof -
  have front: "dropWhile is_space (log_of (Suc n)) = log_of (Suc n)"
    by (simp add: log_of_Suc is_space_def)
  have "rev (log_of (Suc n)) = CHR 0x0A # CHR ''}'' # CHR ''{'' # rev (log_of n)"
    by (simp add: log_of_snoc)
  then have "dropWhile is_space (rev (log_of (Suc n))) = CHR ''}'' # CHR ''{'' # rev (log_of n)"
    by (simp add: is_space_def)
  with front show ?thesis by (simp add: js_trim_def)
qed

lemma read_whole_log:
  "readPipelineEvents P (Some NaN) (Some (log_of (Suc n)))
     = replicate (Suc n) (parse_line P ''{}'')"
  by (simp add: readPipelineEvents_def select_events_NaN trim_log split_lines_log
           del: replicate.simps)

lemma abc_is_no_number: "number_param node (Some ''abc'') dflt = NaN"
  by code_simp

lemma parse_empty_object: "parse_line node ''{}'' = JObj []"
  by code_simp

text \<open>
  C8, at a limit that is no number. \<^verbatim>\<open>Number("abc")\<close> is \<^verbatim>\<open>NaN\<close>, which
  \<^verbatim>\<open>Math.min\<close> and \<^verbatim>\<open>Math.max\<close> hand on, and \<^verbatim>\<open>slice(-NaN)\<close> is the whole
  list: the read returns every line of the log, 1001 entries for a log of 1001
  lines, where the specification has the limit kept within 1 and 1000.
\<close>

theorem unparsed_limit_reads_whole_log:
  "number_param node (Some ''abc'') 200 = NaN
   \<and> select_events P NaN lines = rev (map (parse_line P) lines)
   \<and> pipeline_leads node (Some ''abc'') (Some (log_of 1001)) = (replicate 1001 (JObj []), 1001)"
proof -
  have "(1001::nat) = Suc 1000" by simp
  then have "readPipelineEvents node (Some NaN) (Some (log_of 1001)) = replicate 1001 (JObj [])"
    using read_whole_log [of node 1000] by (simp add: parse_empty_object del: replicate.simps)
  then show ?thesis
    by (simp add: pipeline_leads_def Let_def abc_is_no_number select_events_NaN)
qed

lemma slice_to_NaN: "slice_to NaN xs = []"
  by (simp add: slice_to_def)

lemma server_B_facts:
  "pageSize_of node abc_request = NaN
   \<and> pageSize_of node forced_request = Finite 24
   \<and> shoots (shootsCache server_B) = [shoot_B]
   \<and> isShootsCacheFresh node (Finite 60) soon (shootsCache server_B)
   \<and> \<not> isShootsCacheFresh node (Finite 60) later (shootsCache server_B)
   \<and> shootsRefreshPromise server_B = None
   \<and> fetching server_B = []
   \<and> started server_B = 0"
  by code_simp

text \<open>
  C9, at a limit that is no number. The page size of \<^verbatim>\<open>GET /api/shoots?limit=abc\<close>
  is \<^verbatim>\<open>NaN\<close>, and \<^verbatim>\<open>slice(0, NaN)\<close> is empty: the reply holds no shoot
  although the cache holds one, where the specification has the limit kept within 1 and 100.
\<close>

theorem unparsed_limit_serves_no_shoots:
  "pageSize_of node abc_request = NaN
   \<and> shoots (shootsCache server_B) = [shoot_B]
   \<and> handleShoots node (Finite 60) soon soon abc_request server_B
       = (Replied (shoots_reply node (Finite 60) soon NaN server_B), server_B)
   \<and> body_shoots (shoots_reply P ttl now NaN s) = []"
  using server_B_facts
  by (simp add: handleShoots_def Let_def shoots_reply_def slice_to_NaN)

text \<open>
  What holds of the page for a limit that is absent or a number: the default is 24,
  and the reply holds as many shoots as the limit, kept within 1 and 100 and cut to
  a whole number, allows and the cache has.
\<close>

lemma default_limit: "pageSize_of P \<lparr>limit_param = None, refresh_param = r\<rparr> = Finite 24"
  by (simp add: pageSize_of_def number_param_def)

lemma numeric_limit_page:
  assumes "number_param P (limit_param req) 24 = Finite q"
  shows "pageSize_of P req = Finite (max 1 (min q 100))
         \<and> length (body_shoots (shoots_reply P ttl now (pageSize_of P req) s))
             = min (nat \<lfloor>max 1 (min q 100)\<rfloor>) (length (shoots (shootsCache s)))"
proof -
  have p: "pageSize_of P req = Finite (max 1 (min q 100))"
    using assms by (simp add: pageSize_of_def)
  have "(1::rat) \<le> max 1 (min q 100)" by simp
  then have "slice_to (Finite (max 1 (min q 100))) (map (sanitizeShootMedia P) (shoots (shootsCache s)))
             = take (nat \<lfloor>max 1 (min q 100)\<rfloor>) (map (sanitizeShootMedia P) (shoots (shootsCache s)))"
    by (rule slice_first)
  with p show ?thesis by (simp add: shoots_reply_def Let_def min.commute)
qed

section \<open>A refresh on request\<close>

text \<open>
  C2, at a request with \<^verbatim>\<open>refresh=1\<close> on a fresh cache. The handler does not read
  the parameter: whatever its value, the handler does the same. On the server whose
  cache is fresh and holds a shoot, with no refresh pending, the request with
  \<^verbatim>\<open>refresh=1\<close> leaves the server as it is (no refresh begins) and the reply
  reports \<^verbatim>\<open>refreshing: false\<close>.
\<close>

theorem refresh_flag_ignored:
  "handleShoots P ttl now now' (req\<lparr>refresh_param := flag\<rparr>) s = handleShoots P ttl now now' req s
   \<and> isShootsCacheFresh node (Finite 60) soon (shootsCache server_B)
   \<and> shootsRefreshPromise server_B = None
   \<and> fetching server_B = []
   \<and> handleShoots node (Finite 60) soon soon forced_request server_B
       = (Replied (shoots_reply node (Finite 60) soon (Finite 24) server_B), server_B)
   \<and> \<not> cache_refreshing (shoots_reply node (Finite 60) soon (Finite 24) server_B)"
  using server_B_facts
  by (simp add: handleShoots_def Let_def pageSize_of_def shoots_reply_def)

text \<open>
  What the handler does for a cache that is stale and not empty: it calls
  \<^verbatim>\<open>refreshShootsCacheInBackground\<close> and replies at once from the cache it has.
\<close>

lemma stale_cache_served_at_once:
  assumes "shoots (shootsCache s) \<noteq> []" "\<not> isShootsCacheFresh P ttl now (shootsCache s)"
  shows "handleShoots P ttl now now' req s
         = (Replied (shoots_reply P ttl now' (pageSize_of P req) (snd (refreshShootsCacheInBackground s))),
            snd (refreshShootsCacheInBackground s))"
  using assms by (simp add: handleShoots_def Let_def split: prod.splits)

section \<open>One refresh at a time\<close>

lemma starting_single_flight: "single_flight (starting c file)"
  by (simp add: single_flight_def starting_def)

lemma refresh_single_flight:
  "single_flight s \<Longrightarrow> single_flight (snd (refreshShootsCacheInBackground s))"
  by (auto simp: single_flight_def refreshShootsCacheInBackground_def Let_def split: option.splits)

lemma step_single_flight:
  assumes "single_flight s" "step e s = Some s'"
  shows "single_flight s'"
proof (cases e)
  case Trigger
  with assms show ?thesis using refresh_single_flight by auto
next
  case (Returned p r)
  with assms show ?thesis
    by (cases r) (auto simp: single_flight_def Let_def split: option.splits if_splits)
next
  case (Finally p)
  with assms show ?thesis
    by (auto simp: single_flight_def split: option.splits if_splits)
qed

lemma run_single_flight:
  "single_flight s \<Longrightarrow> run events s = Some s' \<Longrightarrow> single_flight s'"
proof (induction events arbitrary: s)
  case Nil
  then show ?case by simp
next
  case (Cons e events)
  then show ?case by (auto split: option.splits dest: step_single_flight)
qed

lemma single_flight_at_most_one: "single_flight s \<Longrightarrow> length (fetching s) \<le> 1"
  by (auto simp: single_flight_def split: option.splits)

lemma refresh_twice:
  assumes "shootsRefreshPromise s = None"
  shows "\<exists>p s1. refreshShootsCacheInBackground s = (p, s1)
           \<and> refreshShootsCacheInBackground s1 = (p, s1)
           \<and> started s1 = Suc (started s) \<and> fetching s1 = p # fetching s"
  using assms by (simp add: refreshShootsCacheInBackground_def Let_def)

lemma handleShoots_triggers:
  "snd (handleShoots P ttl now now' req s) = s
   \<or> snd (handleShoots P ttl now now' req s) = snd (refreshShootsCacheInBackground s)"
  by (simp add: handleShoots_def Let_def split: prod.splits)

text \<open>
  C3. A call of \<^verbatim>\<open>refreshShootsCacheInBackground\<close> while a promise is held returns
  that promise and leaves the server as it is: no fetch sequence begins. In every
  state that the server reaches from its start by triggers, returns of fetches and
  \<^verbatim>\<open>finally\<close> callbacks in any order, at most one fetch sequence is in flight, and
  it is the one of the promise held; a call of the handler of \<^verbatim>\<open>GET /api/shoots\<close>
  keeps it so. In such a state with no promise held, two triggers in a row begin
  exactly one fetch sequence, and the second returns the promise of the first.
\<close>

theorem one_refresh_in_flight:
  "(shootsRefreshPromise s = Some p \<longrightarrow> refreshShootsCacheInBackground s = (p, s))
   \<and> (run events (starting c file) = Some s \<longrightarrow>
        length (fetching s) \<le> 1 \<and> single_flight s
        \<and> single_flight (snd (handleShoots P ttl now now' req s)))
   \<and> (run events (starting c file) = Some s \<and> shootsRefreshPromise s = None \<longrightarrow>
        (\<exists>q s1. refreshShootsCacheInBackground s = (q, s1)
           \<and> refreshShootsCacheInBackground s1 = (q, s1)
           \<and> started s1 = Suc (started s) \<and> fetching s1 = [q]))"
proof (intro conjI impI)
  assume "shootsRefreshPromise s = Some p"
  then show "refreshShootsCacheInBackground s = (p, s)"
    by (simp add: refreshShootsCacheInBackground_def)
next
  assume "run events (starting c file) = Some s"
  then have sf: "single_flight s"
    using run_single_flight starting_single_flight by blast
  then show "length (fetching s) \<le> 1" by (rule single_flight_at_most_one)
  show "single_flight s" by (rule sf)
  show "single_flight (snd (handleShoots P ttl now now' req s))"
    using sf refresh_single_flight handleShoots_triggers [of P ttl now now' req s] by auto
next
  assume a: "run events (starting c file) = Some s \<and> shootsRefreshPromise s = None"
  then have "single_flight s"
    using run_single_flight starting_single_flight by blast
  with a have "fetching s = []" by (simp add: single_flight_def)
  with a refresh_twice [of s]
  show "\<exists>q s1. refreshShootsCacheInBackground s = (q, s1)
           \<and> refreshShootsCacheInBackground s1 = (q, s1)
           \<and> started s1 = Suc (started s) \<and> fetching s1 = [q]"
    by auto
qed

lemma busy_run:
  "run busy (starting empty_cache None)
     = Some \<lparr>shootsCache = cache_B, shootsRefreshPromise = Some 1, cache_file = Some cache_B,
             started = 2, fetching = [1], settling = []\<rparr>
   \<and> run [Trigger, Returned 0 (Inr cache_B), Finally 0] (starting empty_cache None)
     = Some \<lparr>shootsCache = cache_B, shootsRefreshPromise = None, cache_file = Some cache_B,
             started = 1, fetching = [], settling = []\<rparr>"
  by code_simp

theorem one_refresh_in_flight_witness:
  "run busy (starting empty_cache None)
     = Some \<lparr>shootsCache = cache_B, shootsRefreshPromise = Some 1, cache_file = Some cache_B,
             started = 2, fetching = [1], settling = []\<rparr>
   \<and> refreshShootsCacheInBackground
        \<lparr>shootsCache = cache_B, shootsRefreshPromise = Some 1, cache_file = Some cache_B,
         started = 2, fetching = [1], settling = []\<rparr>
      = (1, \<lparr>shootsCache = cache_B, shootsRefreshPromise = Some 1, cache_file = Some cache_B,
              started = 2, fetching = [1], settling = []\<rparr>)
   \<and> single_flight
        \<lparr>shootsCache = cache_B, shootsRefreshPromise = Some 1, cache_file = Some cache_B,
         started = 2, fetching = [1], settling = []\<rparr>
   \<and> (\<exists>q s1. refreshShootsCacheInBackground
                  \<lparr>shootsCache = cache_B, shootsRefreshPromise = None, cache_file = Some cache_B,
                   started = 1, fetching = [], settling = []\<rparr> = (q, s1)
           \<and> refreshShootsCacheInBackground s1 = (q, s1)
           \<and> started s1 = Suc 1 \<and> fetching s1 = [q])"
proof -
  let ?s = "\<lparr>shootsCache = cache_B, shootsRefreshPromise = Some 1, cache_file = Some cache_B,
             started = 2, fetching = [1], settling = []\<rparr>"
  let ?idle = "\<lparr>shootsCache = cache_B, shootsRefreshPromise = None, cache_file = Some cache_B,
             started = 1, fetching = [], settling = []\<rparr>"
  have r1: "run busy (starting empty_cache None) = Some ?s" using busy_run by blast
  have r2: "run [Trigger, Returned 0 (Inr cache_B), Finally 0] (starting empty_cache None) = Some ?idle"
    using busy_run by blast
  note a = one_refresh_in_flight [of ?s 1 busy empty_cache None]
  note b = one_refresh_in_flight
     [of ?idle 0 "[Trigger, Returned 0 (Inr cache_B), Finally 0]" empty_cache None]
  have "refreshShootsCacheInBackground ?s = (1, ?s)" using a by simp
  moreover have "single_flight ?s" using a r1 by blast
  moreover have "\<exists>q s1. refreshShootsCacheInBackground ?idle = (q, s1)
           \<and> refreshShootsCacheInBackground s1 = (q, s1)
           \<and> started s1 = Suc (started ?idle) \<and> fetching s1 = [q]"
    using b r2 by simp
  ultimately show ?thesis using r1 by simp
qed

section \<open>The include fallback of the provider client\<close>

lemma fetchAryeo_scripted:
  "API_TOKEN cfg \<noteq> [] \<Longrightarrow>
   fetchAryeo cfg scripted_fetch resource (with_include c ps) (sent, answers)
     = (aryeo_outcome (answers (length sent)),
        (sent @ [request_for cfg resource ps c], answers))"
  by (simp add: fetchAryeo_def scripted_fetch_def aryeo_outcome_def request_for_def Let_def
           split: sum.splits)

lemma try_includes_stops:
  "\<not> retried c (fst (fetchAryeo cfg http resource (with_include c ps) w)) \<Longrightarrow>
   try_includes cfg http resource ps le (c # cs) w
     = fetchAryeo cfg http resource (with_include c ps) w"
  by (auto simp: retried_def split: prod.splits sum.splits)

lemma try_includes_goes_on:
  "fetchAryeo cfg http resource (with_include c ps) w = (Inl e, w') \<Longrightarrow> retried c (Inl e) \<Longrightarrow>
   try_includes cfg http resource ps le (c # cs) w
     = try_includes cfg http resource ps (Some e) cs w'"
  by (auto simp: retried_def)

lemma try_includes_scripted:
  assumes token: "API_TOKEN cfg \<noteq> []"
  shows "cs \<noteq> [] \<Longrightarrow> last cs = [] \<Longrightarrow>
    \<exists>n < length cs.
      try_includes cfg scripted_fetch resource ps le cs (sent, answers)
        = (aryeo_outcome (answers (length sent + n)),
           (sent @ map (request_for cfg resource ps) (take (Suc n) cs), answers))
      \<and> (\<forall>i < n. retried (cs ! i) (aryeo_outcome (answers (length sent + i))))
      \<and> \<not> retried (cs ! n) (aryeo_outcome (answers (length sent + n)))"
proof (induction cs arbitrary: le sent)
  case Nil
  then show ?case by simp
next
  case (Cons c cs)
  let ?out = "aryeo_outcome (answers (length sent))"
  let ?sent = "sent @ [request_for cfg resource ps c]"
  have call: "fetchAryeo cfg scripted_fetch resource (with_include c ps) (sent, answers)
                = (?out, (?sent, answers))"
    using token by (rule fetchAryeo_scripted)
  show ?case
  proof (cases "retried c ?out")
    case False
    then have "try_includes cfg scripted_fetch resource ps le (c # cs) (sent, answers)
                 = (?out, (?sent, answers))"
      using call try_includes_stops [of c cfg scripted_fetch resource ps "(sent, answers)" le cs]
      by simp
    with False show ?thesis by (intro exI [of _ 0]) simp
  next
    case True
    then obtain e where e: "?out = Inl e" and c: "c \<noteq> []"
      by (auto simp: retried_def split: sum.splits)
    from c Cons.prems have cs: "cs \<noteq> []" "last cs = []" by (auto split: if_splits)
    from call e True
    have go: "try_includes cfg scripted_fetch resource ps le (c # cs) (sent, answers)
                = try_includes cfg scripted_fetch resource ps (Some e) cs (?sent, answers)"
      using try_includes_goes_on
              [of cfg scripted_fetch resource c ps "(sent, answers)" e "(?sent, answers)" le cs]
      by simp
    from Cons.IH [OF cs, of "Some e" ?sent] obtain n where n: "n < length cs"
      and run: "try_includes cfg scripted_fetch resource ps (Some e) cs (?sent, answers)
                  = (aryeo_outcome (answers (length ?sent + n)),
                     (?sent @ map (request_for cfg resource ps) (take (Suc n) cs), answers))"
      and before: "\<forall>i < n. retried (cs ! i) (aryeo_outcome (answers (length ?sent + i)))"
      and last: "\<not> retried (cs ! n) (aryeo_outcome (answers (length ?sent + n)))"
      by blast
    have "\<forall>i < Suc n. retried ((c # cs) ! i) (aryeo_outcome (answers (length sent + i)))"
    proof (intro allI impI)
      fix i assume "i < Suc n"
      then show "retried ((c # cs) ! i) (aryeo_outcome (answers (length sent + i)))"
        using True before by (cases i) auto
    qed
    with n go run last show ?thesis
      by (intro exI [of _ "Suc n"]) simp
  qed
qed

lemma candidates_shape:
  "last (includeCandidates ps fallbacks) = []
   \<and> includeCandidates ps fallbacks \<noteq> []
   \<and> butlast (includeCandidates ps fallbacks)
       = trimmed_include (js_get (JObj ps) ''include'') @ concat (map trimmed_include fallbacks)
   \<and> (\<forall>c \<in> set (butlast (includeCandidates ps fallbacks)). c \<noteq> [])"
proof -
  have "\<And>v. \<forall>c \<in> set (trimmed_include v). c \<noteq> []"
    by (auto simp: trimmed_include_def split: jsval.splits if_splits)
  then show ?thesis
    by (auto simp: includeCandidates_def butlast_append)
qed

lemma missing_token_not_rejected:
  "\<not> includeRejected
       (Error ''Missing ARYEO_API_TOKEN. Add it to your environment before calling Aryeo.'')"
  by code_simp

lemma missing_token:
  assumes "API_TOKEN cfg = []"
  shows "fetchAryeoWithIncludeFallback cfg http resource ps fallbacks w
         = (Inl (Error ''Missing ARYEO_API_TOKEN. Add it to your environment before calling Aryeo.''), w)"
proof -
  obtain c cs where cs: "includeCandidates ps fallbacks = c # cs"
    using candidates_shape [of ps fallbacks] by (cases "includeCandidates ps fallbacks") auto
  have "fetchAryeo cfg http resource (with_include c ps) w
        = (Inl (Error ''Missing ARYEO_API_TOKEN. Add it to your environment before calling Aryeo.''), w)"
    using assms by (simp add: fetchAryeo_def)
  then show ?thesis
    using missing_token_not_rejected cs
    by (simp add: fetchAryeoWithIncludeFallback_def del: includeRejected_def)
qed

lemma fold_set_param_other:
  "k \<notin> fst ` set ps \<Longrightarrow> map_of (fold set_param ps q) k = map_of q k"
  by (induction ps arbitrary: q) (auto simp: set_param_def update_conv')

lemma fold_set_param_sent:
  "distinct (map fst ps) \<Longrightarrow> map_of ps k = Some (JStr c) \<Longrightarrow> c \<noteq> [] \<Longrightarrow>
   map_of (fold set_param ps q) k = Some c"
proof (induction ps arbitrary: q)
  case Nil
  then show ?case by simp
next
  case (Cons p ps)
  obtain k' v where p: "p = (k', v)" by (cases p)
  show ?case
  proof (cases "k' = k")
    case True
    with Cons.prems p have v: "v = JStr c" and absent: "k \<notin> fst ` set ps" by auto
    from v True p Cons.prems(3) have "set_param p q = AList.update k c q"
      by (simp add: set_param_def)
    then have "map_of (fold set_param (p # ps) q) k = map_of (AList.update k c q) k"
      using fold_set_param_other [OF absent, of "AList.update k c q"] by simp
    then show ?thesis by (simp add: update_conv')
  next
    case False
    with Cons p show ?thesis by simp
  qed
qed

lemma no_include_sent:
  "map_of (search_params (request_for cfg resource ps [])) ''include'' = None"
proof -
  have "''include'' \<notin> fst ` set (AList.delete ''include'' ps)"
    by (rule delete_notin_dom)
  then show ?thesis
    by (simp add: request_for_def with_include_def fold_set_param_other)
qed

lemma include_sent:
  assumes "c \<noteq> []" "distinct (map fst ps)"
  shows "map_of (search_params (request_for cfg resource ps c)) ''include'' = Some c"
proof -
  have "distinct (map fst (AList.update ''include'' (JStr c) ps))"
    using assms(2) by (rule distinct_update)
  moreover have "map_of (AList.update ''include'' (JStr c) ps) ''include'' = Some (JStr c)"
    by (simp add: update_conv')
  ultimately show ?thesis
    using assms(1) by (simp add: request_for_def with_include_def fold_set_param_sent)
qed

text \<open>
  When the client goes on to the next candidate after an attempt, written out on the
  message of the error: the attempt carried an include, it failed, and the message
  holds \<^verbatim>\<open>Requested include(s)\<close> or \<^verbatim>\<open>not allowed\<close>.
\<close>

lemma retried_iff:
  "retried c outcome \<longleftrightarrow>
     c \<noteq> []
     \<and> (\<exists>e. outcome = Inl e
            \<and> (js_includes (message e) ''Requested include(s)''
                \<or> js_includes (message e) ''not allowed''))"
  by (cases outcome) (simp_all add: retried_def includeRejected_def conj_commute)

lemma not_retried_iff:
  "\<not> retried c outcome \<longleftrightarrow>
     c = []
     \<or> (\<exists>payload. outcome = Inr payload)
     \<or> (\<exists>e. outcome = Inl e
            \<and> \<not> js_includes (message e) ''Requested include(s)''
            \<and> \<not> js_includes (message e) ''not allowed'')"
  by (cases outcome) (auto simp: retried_def includeRejected_def)

text \<open>
  C4, with the next candidate in the caller's order in place of the next smaller one.
  Without a token the client fails at once, before any request. With a token, on a
  provider that answers the \<open>n\<close>-th request with \<open>answers n\<close>: the candidates are the
  trimmed non-blank include of the caller followed by the caller's trimmed non-blank
  fallbacks, in the caller's order, and the empty candidate last; the client sends
  the requests of the candidates from the first up to some candidate \<open>n\<close> and no
  more. Every attempt before \<open>n\<close> carried an include and failed with a message that
  holds \<^verbatim>\<open>Requested include(s)\<close> or \<^verbatim>\<open>not allowed\<close>. Attempt \<open>n\<close> carried no include,
  or it succeeded, or it failed with a message that holds neither of the two; its
  outcome, the payload or the error, is the outcome of the call, so that a failure
  without the signature and a failure of the attempt without include end the call
  with that error, and the error of a call whose attempts all fail is the one of the
  last attempt. The request of the empty candidate has no include parameter, the
  request of any other candidate has that candidate as its include parameter.
\<close>

theorem include_fallback:
  "(API_TOKEN cfg = [] \<longrightarrow>
      fetchAryeoWithIncludeFallback cfg http resource ps fallbacks w
        = (Inl (Error ''Missing ARYEO_API_TOKEN. Add it to your environment before calling Aryeo.''), w))
   \<and> last (includeCandidates ps fallbacks) = []
   \<and> butlast (includeCandidates ps fallbacks)
       = trimmed_include (js_get (JObj ps) ''include'') @ concat (map trimmed_include fallbacks)
   \<and> (\<forall>c \<in> set (butlast (includeCandidates ps fallbacks)). c \<noteq> [])
   \<and> (API_TOKEN cfg \<noteq> [] \<longrightarrow>
        (\<exists>n < length (includeCandidates ps fallbacks).
           fetchAryeoWithIncludeFallback cfg scripted_fetch resource ps fallbacks ([], answers)
             = (aryeo_outcome (answers n),
                (map (request_for cfg resource ps) (take (Suc n) (includeCandidates ps fallbacks)),
                 answers))
           \<and> (\<forall>i < n.
                 includeCandidates ps fallbacks ! i \<noteq> []
                 \<and> (\<exists>e. aryeo_outcome (answers i) = Inl e
                        \<and> (js_includes (message e) ''Requested include(s)''
                            \<or> js_includes (message e) ''not allowed'')))
           \<and> (includeCandidates ps fallbacks ! n = []
                \<or> (\<exists>payload. aryeo_outcome (answers n) = Inr payload)
                \<or> (\<exists>e. aryeo_outcome (answers n) = Inl e
                        \<and> \<not> js_includes (message e) ''Requested include(s)''
                        \<and> \<not> js_includes (message e) ''not allowed''))))
   \<and> map_of (search_params (request_for cfg resource ps [])) ''include'' = None
   \<and> (c \<noteq> [] \<and> distinct (map fst ps) \<longrightarrow>
        map_of (search_params (request_for cfg resource ps c)) ''include'' = Some c)"
proof (intro conjI impI)
  assume "API_TOKEN cfg = []"
  then show "fetchAryeoWithIncludeFallback cfg http resource ps fallbacks w
        = (Inl (Error ''Missing ARYEO_API_TOKEN. Add it to your environment before calling Aryeo.''), w)"
    by (rule missing_token)
next
  show "last (includeCandidates ps fallbacks) = []"
    using candidates_shape by blast
  show "butlast (includeCandidates ps fallbacks)
       = trimmed_include (js_get (JObj ps) ''include'') @ concat (map trimmed_include fallbacks)"
    using candidates_shape by blast
  show "\<forall>c \<in> set (butlast (includeCandidates ps fallbacks)). c \<noteq> []"
    using candidates_shape by blast
  show "map_of (search_params (request_for cfg resource ps [])) ''include'' = None"
    by (rule no_include_sent)
next
  assume "API_TOKEN cfg \<noteq> []"
  then obtain n where n: "n < length (includeCandidates ps fallbacks)"
    and run: "fetchAryeoWithIncludeFallback cfg scripted_fetch resource ps fallbacks ([], answers)
             = (aryeo_outcome (answers n),
                (map (request_for cfg resource ps) (take (Suc n) (includeCandidates ps fallbacks)),
                 answers))"
    and before: "\<forall>i < n. retried (includeCandidates ps fallbacks ! i) (aryeo_outcome (answers i))"
    and stop: "\<not> retried (includeCandidates ps fallbacks ! n) (aryeo_outcome (answers n))"
    using try_includes_scripted
            [of cfg "includeCandidates ps fallbacks" resource ps None "[]" answers]
          candidates_shape [of ps fallbacks]
    by (auto simp: fetchAryeoWithIncludeFallback_def)
  from before have before':
    "\<forall>i < n.
       includeCandidates ps fallbacks ! i \<noteq> []
       \<and> (\<exists>e. aryeo_outcome (answers i) = Inl e
              \<and> (js_includes (message e) ''Requested include(s)''
                  \<or> js_includes (message e) ''not allowed''))"
    unfolding retried_iff .
  from stop have stop':
    "includeCandidates ps fallbacks ! n = []
     \<or> (\<exists>payload. aryeo_outcome (answers n) = Inr payload)
     \<or> (\<exists>e. aryeo_outcome (answers n) = Inl e
            \<and> \<not> js_includes (message e) ''Requested include(s)''
            \<and> \<not> js_includes (message e) ''not allowed'')"
    by (rule not_retried_iff [THEN iffD1])
  show "\<exists>n < length (includeCandidates ps fallbacks).
           fetchAryeoWithIncludeFallback cfg scripted_fetch resource ps fallbacks ([], answers)
             = (aryeo_outcome (answers n),
                (map (request_for cfg resource ps) (take (Suc n) (includeCandidates ps fallbacks)),
                 answers))
           \<and> (\<forall>i < n.
                 includeCandidates ps fallbacks ! i \<noteq> []
                 \<and> (\<exists>e. aryeo_outcome (answers i) = Inl e
                        \<and> (js_includes (message e) ''Requested include(s)''
                            \<or> js_includes (message e) ''not allowed'')))
           \<and> (includeCandidates ps fallbacks ! n = []
                \<or> (\<exists>payload. aryeo_outcome (answers n) = Inr payload)
                \<or> (\<exists>e. aryeo_outcome (answers n) = Inl e
                        \<and> \<not> js_includes (message e) ''Requested include(s)''
                        \<and> \<not> js_includes (message e) ''not allowed''))"
    using n run before' stop' by (intro exI [of _ n] conjI)
next
  assume "c \<noteq> [] \<and> distinct (map fst ps)"
  then show "map_of (search_params (request_for cfg resource ps c)) ''include'' = Some c"
    using include_sent by blast
qed

text \<open>
  The three providers of the examples. With the first, the rejection holds the first
  phrase only, and the second candidate is accepted. With the second, the rejection
  holds the second phrase only, the failure of the second attempt holds neither and
  ends the call, though candidates are left and the third request would be accepted.
  With the third, every candidate is rejected, the last request has no include, and
  its error, not an earlier one, is the error of the call.
\<close>

lemma example_accepted:
  "fst (fetchAryeoWithIncludeFallback cfg0 scripted_fetch ''/orders'' params0 fallbacks0
          ([], answers0))
     = Inr (JObj [(''data'', JArr [])])
   \<and> includes_sent (snd (fetchAryeoWithIncludeFallback cfg0 scripted_fetch ''/orders'' params0
                            fallbacks0 ([], answers0)))
       = [Some ''listing,appointments,items,tags'', Some ''listing,appointments,items'']
   \<and> aryeo_outcome (answers0 0) = Inl (Error ''Aryeo API 422: Requested include(s) refused'')
   \<and> \<not> js_includes ''Aryeo API 422: Requested include(s) refused'' ''not allowed''"
  by code_simp

lemma example_other_failure:
  "fst (fetchAryeoWithIncludeFallback cfg0 scripted_fetch ''/orders'' params0 fallbacks0
          ([], answers1))
     = Inl (Error ''Aryeo API 500: Internal Server Error'')
   \<and> includes_sent (snd (fetchAryeoWithIncludeFallback cfg0 scripted_fetch ''/orders'' params0
                            fallbacks0 ([], answers1)))
       = [Some ''listing,appointments,items,tags'', Some ''listing,appointments,items'']
   \<and> aryeo_outcome (answers1 0) = Inl (Error ''Aryeo API 403: The include tags is not allowed'')
   \<and> \<not> js_includes ''Aryeo API 403: The include tags is not allowed'' ''Requested include(s)''
   \<and> aryeo_outcome (answers1 2) = Inr (JObj [(''data'', JArr [])])"
  by code_simp

lemma example_all_rejected:
  "fst (fetchAryeoWithIncludeFallback cfg0 scripted_fetch ''/orders'' params0 fallbacks0
          ([], answers2))
     = Inl (Error ''Aryeo API 423: not allowed'')
   \<and> includes_sent (snd (fetchAryeoWithIncludeFallback cfg0 scripted_fetch ''/orders'' params0
                            fallbacks0 ([], answers2)))
       = [Some ''listing,appointments,items,tags'', Some ''listing,appointments,items'',
          Some ''listing,appointments'', None]"
  by code_simp

lemma example_token: "API_TOKEN cfg0 \<noteq> []"
  by code_simp

theorem include_fallback_witness:
  "API_TOKEN cfg0 \<noteq> []
   \<and> fst (fetchAryeoWithIncludeFallback cfg0 scripted_fetch ''/orders'' params0 fallbacks0
            ([], answers0))
       = Inr (JObj [(''data'', JArr [])])
   \<and> includes_sent (snd (fetchAryeoWithIncludeFallback cfg0 scripted_fetch ''/orders'' params0
                            fallbacks0 ([], answers0)))
       = [Some ''listing,appointments,items,tags'', Some ''listing,appointments,items'']
   \<and> fst (fetchAryeoWithIncludeFallback cfg0 scripted_fetch ''/orders'' params0 fallbacks0
            ([], answers1))
       = Inl (Error ''Aryeo API 500: Internal Server Error'')
   \<and> includes_sent (snd (fetchAryeoWithIncludeFallback cfg0 scripted_fetch ''/orders'' params0
                            fallbacks0 ([], answers1)))
       = [Some ''listing,appointments,items,tags'', Some ''listing,appointments,items'']
   \<and> fst (fetchAryeoWithIncludeFallback cfg0 scripted_fetch ''/orders'' params0 fallbacks0
            ([], answers2))
       = Inl (Error ''Aryeo API 423: not allowed'')
   \<and> includes_sent (snd (fetchAryeoWithIncludeFallback cfg0 scripted_fetch ''/orders'' params0
                            fallbacks0 ([], answers2)))
       = [Some ''listing,appointments,items,tags'', Some ''listing,appointments,items'',
          Some ''listing,appointments'', None]
   \<and> (\<exists>n < length (includeCandidates params0 fallbacks0).
           fetchAryeoWithIncludeFallback cfg0 scripted_fetch ''/orders'' params0 fallbacks0
               ([], answers1)
             = (aryeo_outcome (answers1 n),
                (map (request_for cfg0 ''/orders'' params0)
                   (take (Suc n) (includeCandidates params0 fallbacks0)),
                 answers1))
           \<and> (\<forall>i < n.
                 includeCandidates params0 fallbacks0 ! i \<noteq> []
                 \<and> (\<exists>e. aryeo_outcome (answers1 i) = Inl e
                        \<and> (js_includes (message e) ''Requested include(s)''
                            \<or> js_includes (message e) ''not allowed'')))
           \<and> (includeCandidates params0 fallbacks0 ! n = []
                \<or> (\<exists>payload. aryeo_outcome (answers1 n) = Inr payload)
                \<or> (\<exists>e. aryeo_outcome (answers1 n) = Inl e
                        \<and> \<not> js_includes (message e) ''Requested include(s)''
                        \<and> \<not> js_includes (message e) ''not allowed'')))"
proof -
  note fb = include_fallback [of cfg0 _ "''/orders''" params0 fallbacks0 _ answers1]
  note run = fb [THEN conjunct2, THEN conjunct2, THEN conjunct2, THEN conjunct2, THEN conjunct1]
  note accepted = example_accepted [THEN conjunct1]
  note accepted_sent = example_accepted [THEN conjunct2, THEN conjunct1]
  note other = example_other_failure [THEN conjunct1]
  note other_sent = example_other_failure [THEN conjunct2, THEN conjunct1]
  note rejected = example_all_rejected [THEN conjunct1]
  note rejected_sent = example_all_rejected [THEN conjunct2]
  show ?thesis
    apply (intro conjI)
           apply (rule example_token)
          apply (rule accepted)
         apply (rule accepted_sent)
        apply (rule other)
       apply (rule other_sent)
      apply (rule rejected)
     apply (rule rejected_sent)
    apply (rule run [THEN mp, OF example_token])
    done
qed

text \<open>
  C4 as stated fails: the candidate of the retry need not be smaller than the one
  that was rejected. \<^verbatim>\<open>handleOrderStatus\<close> calls the client with the include
  \<^verbatim>\<open>listing,appointments\<close> and with the same text as its first fallback; when the
  provider rejects the first request for its include, the second request carries the
  same include again.
\<close>

theorem retry_repeats_include:
  "includeCandidates [(''include'', JStr ''listing,appointments'')]
       [JStr ''listing,appointments'', JStr ''listing'']
     = [''listing,appointments'', ''listing,appointments'', ''listing'', []]
   \<and> aryeo_outcome (answers0 0) = Inl (Error ''Aryeo API 422: Requested include(s) refused'')
   \<and> includes_sent (snd (handleOrderStatus_payload cfg0 scripted_fetch ''42'' ([], answers0)))
       = [Some ''listing,appointments'', Some ''listing,appointments'']
   \<and> fst (handleOrderStatus_payload cfg0 scripted_fetch ''42'' ([], answers0))
       = Inr (JObj [(''data'', JArr [])])"
  by code_simp

end
